theory Spec2Isabelle
  imports Complex_Main "HOL-Library.Char_ord" "HOL-Library.List_Lexorder"
    "HOL-Library.Product_Lexorder"
begin

section \<open>Values of the Python program\<close>

subsection \<open>Floating-point numbers\<close>

text \<open>
  A Python \<open>float\<close> is modelled by its exact value: a finite float is the real number it
  denotes, and the three special values of IEEE 754 that the program can produce (a
  division by zero in the share computation, \<open>float("inf")\<close>, \<open>float("nan")\<close>) are
  constructors of their own. Where a number is read, overflow is in the model: an
  integer too large for a double raises, a decimal string too large is an infinity.
  Rounding to 53 bits and the sign of zero are outside the model: the sum, quotient and
  product of two finite floats are the exact ones, also where a double would round or
  overflow. A statement whose truth depends on rounding cannot be settled on this model.
\<close>

datatype pyfloat = Fin real | PInf | NInf | NaN

text \<open>
  The least magnitude that does not round to a finite double: halfway between the
  largest double, \<open>2^1024 - 2^971\<close>, and \<open>2^1024\<close> (the tie goes to the even side, which
  is \<open>2^1024\<close>).
\<close>

definition dbl_over :: real where
  "dbl_over = 2 ^ 1024 - 2 ^ 970"

fun isnan :: "pyfloat \<Rightarrow> bool" where
  "isnan NaN = True"
| "isnan _ = False"

fun fneg :: "pyfloat \<Rightarrow> pyfloat" where
  "fneg (Fin a) = Fin (- a)"
| "fneg PInf = NInf"
| "fneg NInf = PInf"
| "fneg NaN = NaN"

fun fadd :: "pyfloat \<Rightarrow> pyfloat \<Rightarrow> pyfloat" where
  "fadd NaN _ = NaN"
| "fadd _ NaN = NaN"
| "fadd PInf NInf = NaN"
| "fadd NInf PInf = NaN"
| "fadd PInf _ = PInf"
| "fadd _ PInf = PInf"
| "fadd NInf _ = NInf"
| "fadd _ NInf = NInf"
| "fadd (Fin a) (Fin b) = Fin (a + b)"

definition fsub :: "pyfloat \<Rightarrow> pyfloat \<Rightarrow> pyfloat" where
  "fsub a b = fadd a (fneg b)"

fun fmul :: "pyfloat \<Rightarrow> pyfloat \<Rightarrow> pyfloat" where
  "fmul NaN _ = NaN"
| "fmul _ NaN = NaN"
| "fmul (Fin a) (Fin b) = Fin (a * b)"
| "fmul (Fin a) PInf = (if a = 0 then NaN else if 0 < a then PInf else NInf)"
| "fmul (Fin a) NInf = (if a = 0 then NaN else if 0 < a then NInf else PInf)"
| "fmul PInf (Fin b) = (if b = 0 then NaN else if 0 < b then PInf else NInf)"
| "fmul NInf (Fin b) = (if b = 0 then NaN else if 0 < b then NInf else PInf)"
| "fmul PInf PInf = PInf"
| "fmul PInf NInf = NInf"
| "fmul NInf PInf = NInf"
| "fmul NInf NInf = PInf"

text \<open>
  Division as numpy does it on float64 columns: no error is raised, a non-zero finite
  value divided by zero is an infinity and \<open>0 / 0\<close> is NaN. (The zero is taken as
  \<open>+0.0\<close>.)
\<close>

fun fdiv :: "pyfloat \<Rightarrow> pyfloat \<Rightarrow> pyfloat" where
  "fdiv NaN _ = NaN"
| "fdiv _ NaN = NaN"
| "fdiv (Fin a) (Fin b) =
     (if b = 0 then (if a = 0 then NaN else if 0 < a then PInf else NInf)
      else Fin (a / b))"
| "fdiv (Fin a) PInf = Fin 0"
| "fdiv (Fin a) NInf = Fin 0"
| "fdiv PInf (Fin b) = (if 0 \<le> b then PInf else NInf)"
| "fdiv NInf (Fin b) = (if 0 \<le> b then NInf else PInf)"
| "fdiv PInf PInf = NaN"
| "fdiv PInf NInf = NaN"
| "fdiv NInf PInf = NaN"
| "fdiv NInf NInf = NaN"

text \<open>The comparison \<open>a > b\<close> of two floats: false whenever one side is NaN.\<close>

fun fgt :: "pyfloat \<Rightarrow> pyfloat \<Rightarrow> bool" where
  "fgt NaN _ = False"
| "fgt _ NaN = False"
| "fgt (Fin a) (Fin b) = (b < a)"
| "fgt PInf PInf = False"
| "fgt PInf _ = True"
| "fgt NInf _ = False"
| "fgt (Fin a) PInf = False"
| "fgt (Fin a) NInf = True"

text \<open>\<open>Series.fillna(v)\<close> on one cell.\<close>

definition fillna :: "pyfloat \<Rightarrow> pyfloat \<Rightarrow> pyfloat" where
  "fillna v x = (if isnan x then v else x)"

text \<open>
  \<open>Series.round(2)\<close> is numpy's \<open>around\<close>: scale by 100, round half to even, scale
  back; infinities and NaN are left as they are.
\<close>

definition rint :: "real \<Rightarrow> int" where
  "rint x =
     (let f = \<lfloor>x\<rfloor>; d = x - of_int f
      in if d < 1 / 2 then f else if 1 / 2 < d then f + 1
         else if even f then f else f + 1)"

fun round2 :: "pyfloat \<Rightarrow> pyfloat" where
  "round2 (Fin a) = Fin (of_int (rint (a * 100)) / 100)"
| "round2 x = x"

text \<open>
  A column sum of pandas (\<open>skipna=True\<close>, \<open>min_count=0\<close>): NaN cells are left out,
  the empty sum is \<open>0.0\<close>.
\<close>

fun fsum :: "pyfloat list \<Rightarrow> pyfloat" where
  "fsum [] = Fin 0"
| "fsum (x # xs) = fadd x (fsum xs)"

definition pd_sum :: "pyfloat list \<Rightarrow> pyfloat" where
  "pd_sum xs = fsum (filter (\<lambda>x. \<not> isnan x) xs)"

subsection \<open>JSON values and exceptions\<close>

text \<open>
  What \<open>Response.json()\<close> returns: \<open>None\<close>, booleans, integers, floats, strings, lists
  and dictionaries. A dictionary is an association list that holds each key once.
  Strings are byte strings: the model covers ASCII text.
\<close>

datatype json =
    JNull
  | JBool bool
  | JInt int
  | JFloat pyfloat
  | JStr string
  | JArr "json list"
  | JObj "(string \<times> json) list"

text \<open>
  The exceptions of the program, all subclasses of \<open>Exception\<close>. \<open>TransportError\<close>
  stands for whatever \<open>requests.get\<close>, \<open>raise_for_status\<close> or \<open>Response.json\<close>
  raise; the \<open>RuntimeError\<close>s are the three the source raises itself.
\<close>

datatype exn =
    TransportError string
  | GetFailed string "(string \<times> json) list option" "exn option"
  | UnexpectedFormat string json
  | NoDateFields int "json list"
  | AttributeError
  | TypeError
  | ValueError
  | OverflowError

subsection \<open>Strings\<close>

text \<open>
  The characters \<open>str.strip()\<close>, \<open>int()\<close> and \<open>float()\<close> treat as white space, among the
  code points up to 255 that a \<open>char\<close> of the model stands for: the ASCII ones, U+0085
  and U+00A0.
\<close>

definition isspace :: "char \<Rightarrow> bool" where
  "isspace c \<longleftrightarrow> c \<in> set [CHR 0x09, CHR 0x0A, CHR 0x0B, CHR 0x0C, CHR 0x0D,
     CHR 0x1C, CHR 0x1D, CHR 0x1E, CHR 0x1F, CHR '' '', CHR 0x85, CHR 0xA0]"

definition strip :: "string \<Rightarrow> string" where
  "strip s = rev (dropWhile isspace (rev (dropWhile isspace s)))"

text \<open>\<open>s.replace(old, new)\<close> for a one-character \<open>old\<close>.\<close>

definition replace :: "char \<Rightarrow> string \<Rightarrow> string \<Rightarrow> string" where
  "replace old new s = concat (map (\<lambda>c. if c = old then new else [c]) s)"

definition digit_val :: "char \<Rightarrow> nat option" where
  "digit_val c =
     map_of [(CHR ''0'', 0), (CHR ''1'', 1), (CHR ''2'', 2), (CHR ''3'', 3), (CHR ''4'', 4),
             (CHR ''5'', 5), (CHR ''6'', 6), (CHR ''7'', 7), (CHR ''8'', 8), (CHR ''9'', 9)] c"

definition is_digit :: "char \<Rightarrow> bool" where
  "is_digit c \<longleftrightarrow> digit_val c \<noteq> None"

text \<open>The value of a string of decimal digits, most significant first.\<close>

definition digits_val :: "string \<Rightarrow> int" where
  "digits_val ds =
     foldl (\<lambda>acc c. 10 * acc + (case digit_val c of Some d \<Rightarrow> int d | None \<Rightarrow> 0)) 0 ds"

text \<open>
  Underscores in a numeric literal: allowed only between two digits. The result is the
  literal without them, or \<open>None\<close> where one is misplaced.
\<close>

fun strip_underscores :: "char \<Rightarrow> string \<Rightarrow> string option" where
  "strip_underscores prev [] = (if prev = CHR ''_'' then None else Some [])"
| "strip_underscores prev (c # cs) =
     (if c = CHR ''_'' then
        (if is_digit prev then strip_underscores c cs else None)
      else if prev = CHR ''_'' \<and> \<not> is_digit c then None
      else map_option ((#) c) (strip_underscores c cs))"

definition lower :: "char \<Rightarrow> char" where
  "lower c =
     (if c = CHR ''I'' then CHR ''i'' else if c = CHR ''N'' then CHR ''n''
      else if c = CHR ''F'' then CHR ''f'' else if c = CHR ''T'' then CHR ''t''
      else if c = CHR ''Y'' then CHR ''y'' else if c = CHR ''A'' then CHR ''a''
      else c)"

text \<open>An optional sign: the sign read (\<open>True\<close> for minus) and the rest.\<close>

fun take_sign :: "string \<Rightarrow> bool \<times> string" where
  "take_sign (c # cs) =
     (if c = CHR ''-'' then (True, cs) else if c = CHR ''+'' then (False, cs)
      else (False, c # cs))"
| "take_sign [] = (False, [])"

text \<open>
  The exponent part of a decimal literal: empty, or \<open>e\<close>/\<open>E\<close>, an optional sign and at
  least one digit.
\<close>

definition parse_exponent :: "string \<Rightarrow> int option" where
  "parse_exponent s =
     (case s of
        [] \<Rightarrow> Some 0
      | c # cs \<Rightarrow>
          if c = CHR ''e'' \<or> c = CHR ''E'' then
            (let (neg, ds) = take_sign cs
             in if ds \<noteq> [] \<and> list_all is_digit ds
                then Some (if neg then - digits_val ds else digits_val ds)
                else None)
          else None)"

text \<open>
  An unsigned decimal literal: digits, an optional point and digits, an optional
  exponent, with at least one digit before or after the point.
\<close>

definition parse_decimal :: "string \<Rightarrow> real option" where
  "parse_decimal s =
     (let ip = takeWhile is_digit s; r1 = dropWhile is_digit s;
          (fp, r2) = (case r1 of
                        c # cs \<Rightarrow> if c = CHR ''.''
                                   then (takeWhile is_digit cs, dropWhile is_digit cs)
                                   else ([], r1)
                      | [] \<Rightarrow> ([], []))
      in if ip = [] \<and> fp = [] then None
         else (case parse_exponent r2 of
                 None \<Rightarrow> None
               | Some e \<Rightarrow>
                   (let m = real_of_int (digits_val (ip @ fp)); k = e - int (length fp)
                    in Some (if 0 \<le> k then m * 10 ^ nat k else m / 10 ^ nat (- k)))))"

text \<open>
  \<open>float(s)\<close> for a string: white space at both ends is dropped, underscores are
  checked and removed, then a sign and \<open>inf\<close>, \<open>infinity\<close>, \<open>nan\<close> (in any case) or a
  decimal literal must fill the whole string. \<open>None\<close> is \<open>ValueError\<close>. A literal too
  large for a double is an infinity (\<open>float("1e309")\<close> is \<open>inf\<close>).
\<close>

definition float_of_str :: "string \<Rightarrow> pyfloat option" where
  "float_of_str s =
     (case strip_underscores (CHR 0x00) (strip s) of
        None \<Rightarrow> None
      | Some t \<Rightarrow>
          (let (neg, body) = take_sign t; w = map lower body
           in if w = ''inf'' \<or> w = ''infinity'' then Some (if neg then NInf else PInf)
              else if w = ''nan'' then Some NaN
              else map_option
                     (\<lambda>r. if dbl_over \<le> r then (if neg then NInf else PInf)
                          else Fin (if neg then - r else r))
                     (parse_decimal body)))"

section \<open>Numeric coercion\<close>

text \<open>\<open>nz(v, fb)\<close>: the fallback for \<open>None\<close> and for an all-blank string.\<close>

definition nz :: "json \<Rightarrow> json \<Rightarrow> json" where
  "nz v fb =
     (case v of
        JNull \<Rightarrow> fb
      | JStr s \<Rightarrow> if strip s = [] then fb else v
      | _ \<Rightarrow> v)"

text \<open>The first candidate that \<open>float\<close> accepts, in the order of the tuple.\<close>

fun first_parse :: "string list \<Rightarrow> pyfloat option" where
  "first_parse [] = None"
| "first_parse (cand # cands) =
     (case float_of_str cand of Some v \<Rightarrow> Some v | None \<Rightarrow> first_parse cands)"

definition candidates :: "string \<Rightarrow> string list" where
  "candidates s =
     [replace (CHR '' '') [] s,
      replace (CHR '','') ''.'' (replace (CHR ''.'') [] s),
      replace (CHR '','') [] s]"

text \<open>
  \<open>to_float(x)\<close>. \<open>bool\<close> is a subclass of \<open>int\<close>, so \<open>True\<close> is \<open>1.0\<close>; lists and
  dictionaries fall through to the final \<open>return 0.0\<close>. \<open>float(x)\<close> in line 67 is not
  inside a \<open>try\<close>: for an integer too large for a double it raises \<open>OverflowError\<close>, and
  that leaves the function. The exceptions of \<open>float(cand)\<close> are caught.
\<close>

definition to_float :: "json \<Rightarrow> exn + pyfloat" where
  "to_float x =
     (case x of
        JNull \<Rightarrow> Inr (Fin 0)
      | JBool b \<Rightarrow> Inr (Fin (if b then 1 else 0))
      | JInt n \<Rightarrow> if dbl_over \<le> \<bar>of_int n\<bar> then Inl OverflowError else Inr (Fin (of_int n))
      | JFloat f \<Rightarrow> Inr f
      | JStr str \<Rightarrow>
          (let s = strip str
           in if s = [] then Inr (Fin 0)
              else (case first_parse (candidates s) of
                      Some v \<Rightarrow> Inr v
                    | None \<Rightarrow> Inr (Fin 0)))
      | _ \<Rightarrow> Inr (Fin 0))"

text \<open>
  \<open>int(s)\<close> for a string in base 10: white space at both ends is dropped, then an
  optional sign and at least one digit, with single underscores between digits.
\<close>

definition int_of_str :: "string \<Rightarrow> int option" where
  "int_of_str s =
     (case strip_underscores (CHR 0x00) (strip s) of
        None \<Rightarrow> None
      | Some t \<Rightarrow>
          (let (neg, ds) = take_sign t
           in if ds \<noteq> [] \<and> list_all is_digit ds
              then Some (if neg then - digits_val ds else digits_val ds)
              else None))"

text \<open>
  \<open>int(x)\<close>: a float is truncated towards zero, an infinity raises \<open>OverflowError\<close>,
  NaN and a string that is no integer literal raise \<open>ValueError\<close>, \<open>None\<close>, lists and
  dictionaries raise \<open>TypeError\<close>.
\<close>

definition py_int :: "json \<Rightarrow> exn + int" where
  "py_int x =
     (case x of
        JInt n \<Rightarrow> Inr n
      | JBool b \<Rightarrow> Inr (if b then 1 else 0)
      | JFloat f \<Rightarrow>
          (case f of
             Fin r \<Rightarrow> Inr (if 0 \<le> r then \<lfloor>r\<rfloor> else \<lceil>r\<rceil>)
           | NaN \<Rightarrow> Inl ValueError
           | _ \<Rightarrow> Inl OverflowError)
      | JStr s \<Rightarrow> (case int_of_str s of Some n \<Rightarrow> Inr n | None \<Rightarrow> Inl ValueError)
      | _ \<Rightarrow> Inl TypeError)"

text \<open>
  \<open>r.get(k)\<close>: only a dictionary has the method; a missing key gives \<open>None\<close>.
\<close>

definition py_get :: "json \<Rightarrow> string \<Rightarrow> exn + json" where
  "py_get r k =
     (case r of
        JObj kvs \<Rightarrow> Inr (case map_of kvs k of Some v \<Rightarrow> v | None \<Rightarrow> JNull)
      | _ \<Rightarrow> Inl AttributeError)"

text \<open>The truth value of an object (\<open>if not x\<close>, \<open>x or y\<close>).\<close>

definition truthy :: "json \<Rightarrow> bool" where
  "truthy x =
     (case x of
        JNull \<Rightarrow> False
      | JBool b \<Rightarrow> b
      | JInt n \<Rightarrow> n \<noteq> 0
      | JFloat f \<Rightarrow> f \<noteq> Fin 0
      | JStr s \<Rightarrow> s \<noteq> []
      | JArr xs \<Rightarrow> xs \<noteq> []
      | JObj kvs \<Rightarrow> kvs \<noteq> [])"

text \<open>
  Decimal notation of integers, as \<open>str(n)\<close> and an f-string write them;
  \<open>str_of_nat\<close> is for the numbers from 0 on.
\<close>

definition digit_char :: "nat \<Rightarrow> char" where
  "digit_char d = ''0123456789'' ! d"

function str_of_nat :: "int \<Rightarrow> string" where
  "str_of_nat n =
     (if n < 10 then [digit_char (nat n)]
      else str_of_nat (n div 10) @ [digit_char (nat (n mod 10))])"
  by pat_completeness auto
termination
  by (relation "measure nat") auto

declare str_of_nat.simps [simp del]

definition str_of_int :: "int \<Rightarrow> string" where
  "str_of_int i = (if i < 0 then CHR ''-'' # str_of_nat (- i) else str_of_nat i)"

text \<open>A number padded with zeros on the left to a width (\<open>%02d\<close>, \<open>%04d\<close>).\<close>

definition zpad :: "nat \<Rightarrow> int \<Rightarrow> string" where
  "zpad w n = (let s = str_of_nat n in replicate (w - length s) (CHR ''0'') @ s)"

section \<open>Resilient JSON fetcher\<close>

text \<open>
  One call of \<open>http_get_json\<close>. The remote side is a function from the number of the
  attempt (from 1) to what the body of the \<open>try\<close> does there: the parsed JSON body,
  or the exception of \<open>requests.get\<close>, \<open>raise_for_status\<close> or \<open>json\<close>. The run
  records the result, the number of attempts made and the pauses slept, in order.
  \<open>time.sleep\<close> raises \<open>ValueError\<close> on a negative length, and does so inside the
  handler, so that error leaves the function.
\<close>

type_synonym remote = "nat \<Rightarrow> exn + json"

type_synonym params = "(string \<times> json) list option"

record http_run =
  result :: "exn + json"
  attempts :: nat
  sleeps :: "real list"

function http_loop ::
  "remote \<Rightarrow> string \<Rightarrow> params \<Rightarrow> int \<Rightarrow> int \<Rightarrow> real \<Rightarrow> exn option \<Rightarrow> http_run"
where
  "http_loop get url ps max_retries attempt delay last_exc =
     (if max_retries < attempt then
        \<lparr>result = Inl (GetFailed url ps last_exc), attempts = 0, sleeps = []\<rparr>
      else
        (case get (nat attempt) of
           Inr body \<Rightarrow> \<lparr>result = Inr body, attempts = 1, sleeps = []\<rparr>
         | Inl e \<Rightarrow>
             if attempt = max_retries then
               \<lparr>result = Inl (GetFailed url ps (Some e)), attempts = 1, sleeps = []\<rparr>
             else if delay < 0 then
               \<lparr>result = Inl ValueError, attempts = 1, sleeps = []\<rparr>
             else
               (let r = http_loop get url ps max_retries (attempt + 1)
                          (min (delay * 2) 8) (Some e)
                in r\<lparr>attempts := Suc (attempts r), sleeps := delay # sleeps r\<rparr>)))"
  by pat_completeness auto
termination
  by (relation "measure (\<lambda>(get, url, ps, m, a, d, l). nat (m + 1 - a))") auto

declare http_loop.simps [simp del]

definition http_get_json :: "remote \<Rightarrow> string \<Rightarrow> params \<Rightarrow> int \<Rightarrow> real \<Rightarrow> http_run" where
  "http_get_json get url ps max_retries initial_delay =
     http_loop get url ps max_retries 1 initial_delay None"

definition BRIDGES_URL :: string where
  "BRIDGES_URL = ''https://bridges.llama.fi/bridges''"

definition BRIDGE_VOLUME_URL :: string where
  "BRIDGE_VOLUME_URL = ''https://bridges.llama.fi/bridgevolume/all''"

section \<open>Catalog and history loaders\<close>

definition fetch_bridges_overview :: "remote \<Rightarrow> exn + json" where
  "fetch_bridges_overview get =
     (case result (http_get_json get BRIDGES_URL None 5 (4 / 10)) of
        Inl e \<Rightarrow> Inl e
      | Inr data \<Rightarrow>
          (case data of
             JObj kvs \<Rightarrow>
               (case map_of kvs ''bridges'' of
                  Some v \<Rightarrow> Inr v
                | None \<Rightarrow> Inl (UnexpectedFormat BRIDGES_URL data))
           | _ \<Rightarrow> Inl (UnexpectedFormat BRIDGES_URL data)))"

text \<open>\<open>sub in s\<close> for two strings.\<close>

fun contains_sub :: "string \<Rightarrow> string \<Rightarrow> bool" where
  "contains_sub sub [] = (sub = [])"
| "contains_sub sub (c # cs) = (take (length sub) (c # cs) = sub \<or> contains_sub sub cs)"

text \<open>
  \<open>"date" in x\<close>: a key of a dictionary, an element of a list, a substring of a
  string; \<open>TypeError\<close> for an object that is no container.
\<close>

definition has_date :: "json \<Rightarrow> exn + bool" where
  "has_date x =
     (case x of
        JObj kvs \<Rightarrow> Inr (''date'' \<in> set (map fst kvs))
      | JArr xs \<Rightarrow> Inr (JStr ''date'' \<in> set xs)
      | JStr s \<Rightarrow> Inr (contains_sub ''date'' s)
      | _ \<Rightarrow> Inl TypeError)"

definition fetch_bridge_daily_all :: "remote \<Rightarrow> int \<Rightarrow> exn + json list" where
  "fetch_bridge_daily_all get bridge_id =
     (case result (http_get_json get BRIDGE_VOLUME_URL (Some [(''id'', JInt bridge_id)])
                     5 (4 / 10)) of
        Inl e \<Rightarrow> Inl e
      | Inr data \<Rightarrow>
          (case data of
             JArr xs \<Rightarrow>
               (case xs of
                  [] \<Rightarrow> Inl (NoDateFields bridge_id (take 2 xs))
                | x # _ \<Rightarrow>
                    (case has_date x of
                       Inl e \<Rightarrow> Inl e
                     | Inr True \<Rightarrow> Inr xs
                     | Inr False \<Rightarrow> Inl (NoDateFields bridge_id (take 2 xs))))
           | _ \<Rightarrow> Inl (UnexpectedFormat BRIDGE_VOLUME_URL data)))"

section \<open>Daily row collector\<close>

text \<open>
  The calendar date of a day number counted from 1970-01-01, in the proleptic Gregorian
  calendar, as \<open>datetime\<close> computes it.
\<close>

definition civil_from_days :: "int \<Rightarrow> int \<times> int \<times> int" where
  "civil_from_days z0 =
     (let z = z0 + 719468;
          era = z div 146097;
          doe = z - era * 146097;
          yoe = (doe - doe div 1460 + doe div 36524 - doe div 146096) div 365;
          doy = doe - (365 * yoe + yoe div 4 - yoe div 100);
          mp = (5 * doy + 2) div 153;
          d = doy - (153 * mp + 2) div 5 + 1;
          m = (if mp < 10 then mp + 3 else mp - 9);
          y = yoe + era * 400 + (if m \<le> 2 then 1 else 0)
      in (y, m, d))"

definition isoformat :: "int \<times> int \<times> int \<Rightarrow> string" where
  "isoformat ymd =
     (case ymd of (y, m, d) \<Rightarrow>
        zpad 4 y @ ''-'' @ zpad 2 m @ ''-'' @ zpad 2 d)"

text \<open>
  \<open>dt.datetime.utcfromtimestamp(ts).date().isoformat()\<close> for a positive integer
  \<open>ts\<close>: past the last second of the year 9999 the call raises (\<open>ValueError\<close>,
  \<open>OverflowError\<close> or \<open>OSError\<close> by size and platform; the model has one error for
  the three).
\<close>

definition utc_isodate :: "int \<Rightarrow> exn + string" where
  "utc_isodate ts =
     (if 253402300799 < ts then Inl ValueError
      else Inr (isoformat (civil_from_days (ts div 86400))))"

record usd_row =
  bridgeId :: int
  bridgeName :: string
  depositUSD :: pyfloat
  withdrawUSD :: pyfloat
  totalUSD :: pyfloat
  netUSD :: pyfloat

record daily_row = usd_row +
  date :: string

type_synonym name_map = "int \<rightharpoonup> string"

text \<open>
  Lines 154 to 157: the time stamp of a raw record. Every exception of the \<open>try\<close>
  (no \<open>get\<close> method, a value \<open>int\<close> refuses) gives 0.
\<close>

definition ts_of :: "json \<Rightarrow> int" where
  "ts_of r =
     (case py_get r ''date'' of
        Inl _ \<Rightarrow> 0
      | Inr v \<Rightarrow> (case py_int (nz v (JInt 0)) of Inl _ \<Rightarrow> 0 | Inr n \<Rightarrow> n))"

definition date_iso_of :: "int \<Rightarrow> exn + string" where
  "date_iso_of ts = (if 0 < ts then utc_isodate ts else Inr ''1970-01-01'')"

text \<open>
  The body of the inner loop for one raw record \<open>r\<close> of bridge \<open>bid\<close>: the row it
  appends, or the exception that leaves the loop (of \<open>utcfromtimestamp\<close>, of \<open>r.get\<close>
  on an object that is no dictionary, of \<open>to_float\<close>), in the order of evaluation.
\<close>

definition make_row :: "int \<Rightarrow> name_map \<Rightarrow> json \<Rightarrow> exn + daily_row" where
  "make_row bid names r =
     (case date_iso_of (ts_of r) of
        Inl e \<Rightarrow> Inl e
      | Inr date_iso \<Rightarrow>
          (case py_get r ''depositUSD'' of
             Inl e \<Rightarrow> Inl e
           | Inr dv \<Rightarrow>
               (case to_float (nz dv (JInt 0)) of
                  Inl e \<Rightarrow> Inl e
                | Inr dep \<Rightarrow>
                    (case py_get r ''withdrawUSD'' of
                       Inl e \<Rightarrow> Inl e
                     | Inr wv \<Rightarrow>
                         (case to_float (nz wv (JInt 0)) of
                            Inl e \<Rightarrow> Inl e
                          | Inr wd \<Rightarrow>
                              Inr \<lparr>bridgeId = bid,
                                   bridgeName = (case names bid of
                                                   Some n \<Rightarrow> n
                                                 | None \<Rightarrow> ''bridge-'' @ str_of_int bid),
                                   depositUSD = dep,
                                   withdrawUSD = wd,
                                   totalUSD = fadd dep wd,
                                   netUSD = fsub dep wd,
                                   date = date_iso\<rparr>)))))"

text \<open>
  The inner loop over a history: the rows appended before the first exception, and that
  exception if there is one. Rows appended stay in the result, as \<open>rows\<close> is shared.
\<close>

fun rows_of_hist :: "int \<Rightarrow> name_map \<Rightarrow> json list \<Rightarrow> daily_row list \<times> exn option" where
  "rows_of_hist bid names [] = ([], None)"
| "rows_of_hist bid names (r # rs) =
     (case make_row bid names r of
        Inl e \<Rightarrow> ([], Some e)
      | Inr row \<Rightarrow>
          (case rows_of_hist bid names rs of (rows, e) \<Rightarrow> (row # rows, e)))"

text \<open>
  The remote side of the collector: what the volume endpoint does at each attempt of
  the \<open>i\<close>-th call (from 1), which asks for bridge \<open>bid\<close>.
\<close>

type_synonym server = "nat \<Rightarrow> int \<Rightarrow> remote"

text \<open>
  One turn of the outer loop: the rows it appends and the warning it prints, if any.
\<close>

definition bridge_rows ::
  "server \<Rightarrow> name_map \<Rightarrow> nat \<Rightarrow> int \<Rightarrow> daily_row list \<times> (int \<times> exn) list"
where
  "bridge_rows srv names i bid =
     (case fetch_bridge_daily_all (srv i bid) bid of
        Inl e \<Rightarrow> ([], [(bid, e)])
      | Inr hist \<Rightarrow>
          (case rows_of_hist bid names hist of
             (rows, None) \<Rightarrow> (rows, [])
           | (rows, Some e) \<Rightarrow> (rows, [(bid, e)])))"

fun collect_from ::
  "server \<Rightarrow> name_map \<Rightarrow> nat \<Rightarrow> int list \<Rightarrow> daily_row list \<times> (int \<times> exn) list"
where
  "collect_from srv names i [] = ([], [])"
| "collect_from srv names i (bid # bids) =
     (case bridge_rows srv names i bid of
        (rows1, warn1) \<Rightarrow>
          (case collect_from srv names (Suc i) bids of
             (rows2, warn2) \<Rightarrow> (rows1 @ rows2, warn1 @ warn2)))"

text \<open>
  \<open>collect_daily_rows\<close>: the rows returned and the warnings written to the error
  stream, each with the id it names. The pause after each id changes no value and is
  not part of the result.
\<close>

definition collect_daily_rows ::
  "server \<Rightarrow> int list \<Rightarrow> name_map \<Rightarrow> int \<Rightarrow> daily_row list \<times> (int \<times> exn) list"
where
  "collect_daily_rows srv ids_all names delay_ms = collect_from srv names 1 ids_all"

section \<open>Aggregation engine\<close>

subsection \<open>The data frame of \<open>main\<close>\<close>

text \<open>
  A row of the frame built in lines 278 to 281: the daily row with its \<open>date\<close> column
  parsed (\<open>None\<close> is \<open>NaT\<close>) and the \<open>year\<close> and \<open>month\<close> columns derived from it
  (\<open>None\<close> is the missing value pandas puts there for \<open>NaT\<close>).
\<close>

record frame_row = usd_row +
  datetime :: "(int \<times> int \<times> int) option"
  year :: "int option"
  month :: "string option"

text \<open>\<open>strftime("%Y-%m")\<close> of a date.\<close>

definition strftime_Ym :: "int \<times> int \<times> int \<Rightarrow> string" where
  "strftime_Ym ymd = (case ymd of (y, m, d) \<Rightarrow> zpad 4 y @ ''-'' @ zpad 2 m)"

text \<open>
  \<open>pd.to_datetime(_, format="%Y-%m-%d", errors="coerce")\<close> is a parameter of the
  model, \<open>to_datetime\<close>: which strings pandas parses, and up to which year, is the
  library's matter.
\<close>

definition make_frame ::
  "(string \<Rightarrow> (int \<times> int \<times> int) option) \<Rightarrow> daily_row list \<Rightarrow> frame_row list"
where
  "make_frame to_datetime rows =
     map (\<lambda>r. let d = to_datetime (date r)
               in \<lparr>bridgeId = bridgeId r, bridgeName = bridgeName r,
                   depositUSD = depositUSD r, withdrawUSD = withdrawUSD r,
                   totalUSD = totalUSD r, netUSD = netUSD r,
                   datetime = d, year = map_option fst d,
                   month = map_option strftime_Ym d\<rparr>) rows"

text \<open>
  Lines 283 to 286. A comparison with a missing month is false; an empty bound is
  falsy, and then that side is not filtered.
\<close>

definition filter_months :: "string \<Rightarrow> string \<Rightarrow> frame_row list \<Rightarrow> frame_row list" where
  "filter_months start_month end_month df =
     (let df1 = (if start_month \<noteq> []
                 then filter (\<lambda>r. case month r of Some m \<Rightarrow> start_month \<le> m | None \<Rightarrow> False) df
                 else df)
      in if end_month \<noteq> []
         then filter (\<lambda>r. case month r of Some m \<Rightarrow> m \<le> end_month | None \<Rightarrow> False) df1
         else df1)"

text \<open>Lines 288 and 289: \<open>to_numeric\<close> leaves a float column as it is.\<close>

definition fill_usd :: "frame_row list \<Rightarrow> frame_row list" where
  "fill_usd df =
     map (\<lambda>r. r\<lparr>depositUSD := fillna (Fin 0) (depositUSD r),
                 withdrawUSD := fillna (Fin 0) (withdrawUSD r),
                 totalUSD := fillna (Fin 0) (totalUSD r),
                 netUSD := fillna (Fin 0) (netUSD r)\<rparr>) df"

definition prepare_frame ::
  "(string \<Rightarrow> (int \<times> int \<times> int) option) \<Rightarrow> string \<Rightarrow> string \<Rightarrow> daily_row list
     \<Rightarrow> frame_row list"
where
  "prepare_frame to_datetime start_month end_month rows =
     fill_usd (filter_months start_month end_month (make_frame to_datetime rows))"

subsection \<open>Grouping and summing\<close>

record 'p agg_row = usd_row +
  period :: 'p

text \<open>
  \<open>df.groupby([bridgeId, bridgeName, period], as_index=False).agg(sum ...)\<close>: rows
  with a missing key are dropped, the groups come in the order of their keys, and
  each USD column of a group is summed.
\<close>

definition group_key :: "(frame_row \<Rightarrow> 'p option) \<Rightarrow> frame_row \<Rightarrow> (int \<times> string \<times> 'p) option" where
  "group_key per r = map_option (\<lambda>p. (bridgeId r, bridgeName r, p)) (per r)"

definition agg_group ::
  "(frame_row \<Rightarrow> 'p option) \<Rightarrow> frame_row list \<Rightarrow> int \<times> string \<times> 'p \<Rightarrow> 'p agg_row"
where
  "agg_group per df k =
     (let g = filter (\<lambda>r. group_key per r = Some k) df
      in \<lparr>bridgeId = fst k, bridgeName = fst (snd k),
          depositUSD = pd_sum (map depositUSD g),
          withdrawUSD = pd_sum (map withdrawUSD g),
          totalUSD = pd_sum (map totalUSD g),
          netUSD = pd_sum (map netUSD g),
          period = snd (snd k)\<rparr>)"

definition groupby_agg ::
  "(frame_row \<Rightarrow> ('p::linorder) option) \<Rightarrow> frame_row list \<Rightarrow> 'p agg_row list"
where
  "groupby_agg per df =
     map (agg_group per df) (sort (remdups (List.map_filter (group_key per) df)))"

text \<open>
  \<open>sort_values([period, "totalUSD"], ascending=[True, False])\<close>: a stable sort;
  within a period the totals fall, and NaN comes last.
\<close>

fun desc_key :: "pyfloat \<Rightarrow> nat \<times> real" where
  "desc_key PInf = (0, 0)"
| "desc_key (Fin a) = (1, - a)"
| "desc_key NInf = (2, 0)"
| "desc_key NaN = (3, 0)"

definition sort_values ::
  "('p::linorder, 'a) agg_row_scheme list \<Rightarrow> ('p, 'a) agg_row_scheme list"
where
  "sort_values tab = sort_key (\<lambda>a. (period a, desc_key (totalUSD a))) tab"

definition aggregate_monthly_yearly ::
  "frame_row list \<Rightarrow> string agg_row list \<times> int agg_row list"
where
  "aggregate_monthly_yearly df =
     (groupby_agg month df, sort_values (groupby_agg year df))"

subsection \<open>Top N and shares\<close>

text \<open>
  \<open>groupby(key, sort=False).head(n)\<close> keeps the rows in their order. For \<open>n \<ge> 0\<close> a
  row stays when fewer than \<open>n\<close> rows of its group come before it; for \<open>n < 0\<close> the
  last \<open>-n\<close> rows of each group go.
\<close>

fun head_from :: "('r \<Rightarrow> 'k) \<Rightarrow> int \<Rightarrow> 'r list \<Rightarrow> 'r list \<Rightarrow> 'r list" where
  "head_from key n seen [] = []"
| "head_from key n seen (r # rs) =
     (let b = length (filter (\<lambda>x. key x = key r) seen);
          a = length (filter (\<lambda>x. key x = key r) rs)
      in (if (0 \<le> n \<and> int b < n) \<or> (n < 0 \<and> - n \<le> int a) then [r] else [])
         @ head_from key n (seen @ [r]) rs)"

definition groupby_head :: "('r \<Rightarrow> 'k) \<Rightarrow> int \<Rightarrow> 'r list \<Rightarrow> 'r list" where
  "groupby_head key n rs = head_from key n [] rs"

definition top_n_per_period ::
  "('p::linorder, 'a) agg_row_scheme list \<Rightarrow> int \<Rightarrow> ('p, 'a) agg_row_scheme list"
where
  "top_n_per_period df top_n = groupby_head period top_n (sort_values df)"

record 'p top_row = "'p agg_row" +
  shares :: pyfloat

text \<open>
  Lines 307 to 316 and 330 to 339: the total of each period over the whole table, joined
  to the top rows on the period, and the share computed from it.
\<close>

definition period_totals :: "('p::linorder) agg_row list \<Rightarrow> ('p \<times> pyfloat) list" where
  "period_totals tab =
     map (\<lambda>p. (p, pd_sum (map totalUSD (filter (\<lambda>a. period a = p) tab))))
       (sort (remdups (map period tab)))"

definition share_of :: "pyfloat \<Rightarrow> pyfloat \<Rightarrow> pyfloat" where
  "share_of total_usd period_total =
     round2 (fillna (Fin 0) (fmul (fdiv total_usd period_total) (Fin 100)))"

definition add_shares ::
  "('p::linorder) agg_row list \<Rightarrow> 'p agg_row list \<Rightarrow> 'p top_row list"
where
  "add_shares tab top_rows =
     map (\<lambda>a. \<lparr>bridgeId = bridgeId a, bridgeName = bridgeName a,
                depositUSD = depositUSD a, withdrawUSD = withdrawUSD a,
                totalUSD = totalUSD a, netUSD = netUSD a, period = period a,
                shares = share_of (totalUSD a)
                           (case map_of (period_totals tab) (period a) of
                              Some t \<Rightarrow> t
                            | None \<Rightarrow> NaN)\<rparr>) top_rows"

section \<open>The program\<close>

record args =
  max_bridges :: int
  delay_ms :: int
  outdir :: string
  start_month :: string
  end_month :: string
  top_n :: int

text \<open>
  What a run leaves behind: the files written under \<open>outdir\<close>, in order, each with
  the table it holds; the warnings of the collector; and how the process ended, with
  \<open>sys.exit(n)\<close> (\<open>Exited 0\<close> for the normal end) or with an exception nobody
  caught (the interpreter then prints a traceback and the exit status of the process
  is 1). Writing a file is taken to succeed.
\<close>

datatype table =
    Daily "daily_row list"
  | Monthly "string agg_row list"
  | Yearly "int agg_row list"
  | MonthlyTop "string top_row list"
  | YearlyTop "int top_row list"

datatype status = Exited int | Uncaught exn

text \<open>
  The exit status the operating system sees: the argument of \<open>sys.exit\<close>, and 1 when
  the interpreter ends on an exception nobody caught.
\<close>

definition exit_status :: "status \<Rightarrow> int" where
  "exit_status st = (case st of Exited n \<Rightarrow> n | Uncaught e \<Rightarrow> 1)"

record run =
  written :: "(string \<times> table) list"
  warned :: "(int \<times> exn) list"
  status :: status

text \<open>\<open>for b in overview\<close>: what the loop goes through, by the type of the object.\<close>

definition iterate :: "json \<Rightarrow> exn + json list" where
  "iterate x =
     (case x of
        JArr xs \<Rightarrow> Inr xs
      | JObj kvs \<Rightarrow> Inr (map (\<lambda>kv. JStr (fst kv)) kvs)
      | JStr s \<Rightarrow> Inr (map (\<lambda>c. JStr [c]) s)
      | _ \<Rightarrow> Inl TypeError)"

text \<open>
  Line 258, \<open>displayName or name or slug or f"bridge-{bid}"\<close>: the first of the three
  fields whose value is truthy. The names of the model are strings, as the program
  declares them (\<open>name_map: Dict[int, str]\<close>) and as the API gives them: a string or
  nothing; a field counts when it is a non-empty string. (For
  a truthy value of another type, say the number 7, the program keeps that object as the
  name, where the model goes on to the next field. Nothing but the \<open>bridgeName\<close> of the
  rows depends on the name: not the ids, the amounts, the dates, nor how a run ends.)
\<close>

definition name_field :: "json \<Rightarrow> string \<Rightarrow> string option" where
  "name_field b k =
     (case py_get b k of
        Inr (JStr s) \<Rightarrow> if s \<noteq> [] then Some s else None
      | _ \<Rightarrow> None)"

definition display_name :: "json \<Rightarrow> int \<Rightarrow> string" where
  "display_name b bid =
     (case name_field b ''displayName'' of
        Some s \<Rightarrow> s
      | None \<Rightarrow>
          (case name_field b ''name'' of
             Some s \<Rightarrow> s
           | None \<Rightarrow>
               (case name_field b ''slug'' of
                  Some s \<Rightarrow> s
                | None \<Rightarrow> ''bridge-'' @ str_of_int bid)))"

text \<open>Lines 253 to 259: the ids in catalog order and the map from id to name.\<close>

fun load_ids :: "json list \<Rightarrow> int list \<Rightarrow> name_map \<Rightarrow> exn + (int list \<times> name_map)" where
  "load_ids [] ids_all names = Inr (ids_all, names)"
| "load_ids (b # bs) ids_all names =
     (case py_get b ''id'' of
        Inl e \<Rightarrow> Inl e
      | Inr v \<Rightarrow>
          (case py_int v of
             Inl e \<Rightarrow> Inl e
           | Inr bid \<Rightarrow> load_ids bs (ids_all @ [bid]) (names(bid \<mapsto> display_name b bid))))"

definition daily_csv :: string where
  "daily_csv = ''all_bridges_daily.csv''"

text \<open>
  Lines 278 to 344, once rows are there: the frame, the two tables, the two top-N
  tables with their shares, and the four files in the order they are written. Lines 301
  to 305 and 325 to 329 repeat the body of \<open>top_n_per_period\<close> in place (without the
  \<open>reset_index\<close>, which renumbers the rows and changes none), so the model calls it.
\<close>

definition report ::
  "(string \<Rightarrow> (int \<times> int \<times> int) option) \<Rightarrow> args \<Rightarrow> daily_row list \<Rightarrow> (string \<times> table) list"
where
  "report to_datetime a rows =
     (let df = prepare_frame to_datetime (start_month a) (end_month a) rows;
          monthly = fst (aggregate_monthly_yearly df);
          yearly = snd (aggregate_monthly_yearly df);
          monthly_top_n = add_shares monthly (top_n_per_period monthly (top_n a));
          yearly_top_n = add_shares yearly (top_n_per_period yearly (top_n a))
      in [(''bridges_monthly.csv'', Monthly monthly),
          (''bridges_yearly.csv'', Yearly yearly),
          (''bridges_monthly_top_'' @ str_of_int (top_n a) @ ''.csv'', MonthlyTop monthly_top_n),
          (''bridges_yearly_top_'' @ str_of_int (top_n a) @ ''.csv'', YearlyTop yearly_top_n)])"

text \<open>
  \<open>main\<close>. \<open>catalog\<close> is the remote side of the one call to the catalog endpoint,
  \<open>srv\<close> that of the calls to the volume endpoint.
\<close>

definition main ::
  "(string \<Rightarrow> (int \<times> int \<times> int) option) \<Rightarrow> remote \<Rightarrow> server \<Rightarrow> args \<Rightarrow> run"
where
  "main to_datetime catalog srv a =
     (case fetch_bridges_overview catalog of
        Inl e \<Rightarrow> \<lparr>written = [], warned = [], status = Uncaught e\<rparr>
      | Inr overview \<Rightarrow>
          if \<not> truthy overview then \<lparr>written = [], warned = [], status = Exited 2\<rparr>
          else
            (case iterate overview of
               Inl e \<Rightarrow> \<lparr>written = [], warned = [], status = Uncaught e\<rparr>
             | Inr bs \<Rightarrow>
                 (case load_ids bs [] Map.empty of
                    Inl e \<Rightarrow> \<lparr>written = [], warned = [], status = Uncaught e\<rparr>
                  | Inr (ids0, names) \<Rightarrow>
                      (let ids_all = (if 0 < max_bridges a
                                      then take (nat (max_bridges a)) ids0 else ids0);
                           rows = fst (collect_daily_rows srv ids_all names (delay_ms a));
                           warns = snd (collect_daily_rows srv ids_all names (delay_ms a))
                       in if rows = []
                          then \<lparr>written = [(daily_csv, Daily rows)], warned = warns,
                                status = Exited 1\<rparr>
                          else \<lparr>written = (daily_csv, Daily rows) # report to_datetime a rows,
                                warned = warns, status = Exited 0\<rparr>))))"

text \<open>
  A concrete \<open>to_datetime\<close> for running the model: it reads \<open>YYYY-MM-DD\<close> as the
  collector writes it.
\<close>

definition iso_date :: "string \<Rightarrow> (int \<times> int \<times> int) option" where
  "iso_date s =
     (if length s = 10 \<and> s ! 4 = CHR ''-'' \<and> s ! 7 = CHR ''-''
         \<and> list_all is_digit (take 4 s) \<and> list_all is_digit (take 2 (drop 5 s))
         \<and> list_all is_digit (drop 8 s)
      then Some (digits_val (take 4 s), digits_val (take 2 (drop 5 s)), digits_val (drop 8 s))
      else None)"

section \<open>Notions of the statements\<close>

text \<open>
  The pauses of the retry policy as the specification words them: the first is the
  initial delay, each next one is twice the one before, capped at 8 seconds.
  \<open>backoff d k\<close> is the list of the first \<open>k\<close> pauses.
\<close>

fun backoff :: "real \<Rightarrow> nat \<Rightarrow> real list" where
  "backoff d 0 = []"
| "backoff d (Suc k) = d # backoff (min (d * 2) 8) k"

text \<open>
  A finite float and its value; a row all of whose USD values are finite; the sums of
  the four USD columns over a list of rows (daily rows of the frame or rows of an
  aggregate table); and \<open>periodTotalUSD\<close>, the sum of \<open>totalUSD\<close> over all rows of a
  period in a table.
\<close>

fun is_fin :: "pyfloat \<Rightarrow> bool" where
  "is_fin (Fin a) = True"
| "is_fin _ = False"

fun fin_val :: "pyfloat \<Rightarrow> real" where
  "fin_val (Fin a) = a"
| "fin_val _ = 0"

definition finite_usd :: "'a usd_row_scheme \<Rightarrow> bool" where
  "finite_usd r \<longleftrightarrow>
     is_fin (depositUSD r) \<and> is_fin (withdrawUSD r) \<and> is_fin (totalUSD r) \<and> is_fin (netUSD r)"

text \<open>
  A float that is a whole number, and a frame on which no addition rounds: every USD
  value is a whole number and the absolute values of each column total less than
  \<open>2^53\<close>. Every sum of values of one column of such a frame, in whatever order and
  grouping it is taken, is a whole number below \<open>2^53\<close> in magnitude, which a double
  holds exactly: there the exact sums of the model are the sums the program computes.
\<close>

fun is_whole :: "pyfloat \<Rightarrow> bool" where
  "is_whole (Fin a) = (a \<in> \<int>)"
| "is_whole _ = False"

definition abs_total :: "('r \<Rightarrow> pyfloat) \<Rightarrow> 'r list \<Rightarrow> real" where
  "abs_total col rows = sum_list (map (\<lambda>r. \<bar>fin_val (col r)\<bar>) rows)"

definition exact_frame :: "frame_row list \<Rightarrow> bool" where
  "exact_frame df \<longleftrightarrow>
     (\<forall>r \<in> set df. is_whole (depositUSD r) \<and> is_whole (withdrawUSD r)
                    \<and> is_whole (totalUSD r) \<and> is_whole (netUSD r))
     \<and> abs_total depositUSD df < 2 ^ 53 \<and> abs_total withdrawUSD df < 2 ^ 53
     \<and> abs_total totalUSD df < 2 ^ 53 \<and> abs_total netUSD df < 2 ^ 53"

definition usd_sums ::
  "'a usd_row_scheme list \<Rightarrow> pyfloat \<times> pyfloat \<times> pyfloat \<times> pyfloat"
where
  "usd_sums rows =
     (pd_sum (map depositUSD rows), pd_sum (map withdrawUSD rows),
      pd_sum (map totalUSD rows), pd_sum (map netUSD rows))"

definition period_total_usd :: "('p, 'a) agg_row_scheme list \<Rightarrow> 'p \<Rightarrow> pyfloat" where
  "period_total_usd tab p = pd_sum (map totalUSD (filter (\<lambda>a. period a = p) tab))"

section \<open>Sample data\<close>

text \<open>
  Two remote sides for the fetcher: one fails twice and then answers, one never
  answers.
\<close>

definition flaky :: remote where
  "flaky k = (if k < 3 then Inl (TransportError ''timeout'') else Inr (JStr ''payload''))"

definition down :: remote where
  "down k = Inl (TransportError (if k = 3 then ''last'' else ''timeout''))"

text \<open>
  A remote side for the collector: the volume endpoint answers the call for bridge 2
  with a dictionary instead of a list, and every other call with a history of one
  record, dated one day before the epoch. \<open>sample_row\<close> is the row of that record for
  bridge 1.
\<close>

definition sample_record :: json where
  "sample_record =
     JObj [(''date'', JInt (- 86400)), (''depositUSD'', JInt 7), (''withdrawUSD'', JInt 2)]"

definition sample_names :: name_map where
  "sample_names = [1 \<mapsto> ''A'', 2 \<mapsto> ''B'']"

definition sample_server :: server where
  "sample_server i bid k =
     (if bid = 2 then Inr (JObj [(''error'', JStr ''no such bridge'')])
      else Inr (JArr [sample_record]))"

definition sample_row :: daily_row where
  "sample_row =
     \<lparr>bridgeId = 1, bridgeName = ''A'', depositUSD = Fin 7, withdrawUSD = Fin 2,
      totalUSD = Fin 9, netUSD = Fin 5, date = ''1970-01-01''\<rparr>"

text \<open>
  A catalog that lists bridge 2 only, a catalog that lists nothing, and the arguments
  of the command line at their defaults. (The remote side \<open>down\<close> above serves as the
  catalog that cannot be reached.)
\<close>

definition sample_catalog :: remote where
  "sample_catalog k =
     Inr (JObj [(''bridges'', JArr [JObj [(''id'', JInt 2), (''displayName'', JStr ''B'')]])])"

definition empty_catalog :: remote where
  "empty_catalog k = Inr (JObj [(''bridges'', JArr [])])"

definition sample_args :: args where
  "sample_args =
     \<lparr>max_bridges = 0, delay_ms = 200, outdir = ''.'', start_month = ''2022-10'',
      end_month = ''2025-08'', top_n = 5\<rparr>"

text \<open>
  Rows of the frame for bridge 1, for a given day and month string; rows of a yearly
  table and of a yearly top-N table, for the year 2023.
\<close>

definition sample_frame_row :: "int \<times> int \<times> int \<Rightarrow> string \<Rightarrow> frame_row" where
  "sample_frame_row d m =
     \<lparr>bridgeId = 1, bridgeName = ''A'', depositUSD = Fin 7, withdrawUSD = Fin 2,
      totalUSD = Fin 9, netUSD = Fin 5, datetime = Some d, year = Some (fst d),
      month = Some m\<rparr>"

definition sample_frame :: "frame_row list" where
  "sample_frame =
     [sample_frame_row (2023, 1, 1) ''2023-01'', sample_frame_row (2023, 2, 1) ''2023-02'',
      sample_frame_row (2023, 1, 2) ''2023-01'']"

text \<open>
  A frame of January 2023 in which bridge 1 has a deposit of \<open>+inf\<close> and one of
  \<open>-inf\<close> (the API value \<open>1e999\<close>, or the string \<open>"inf"\<close>, and their negatives), and
  bridge 2 a deposit of 5.
\<close>

definition sample_usd_row :: "int \<Rightarrow> string \<Rightarrow> pyfloat \<Rightarrow> frame_row" where
  "sample_usd_row bid name v =
     \<lparr>bridgeId = bid, bridgeName = name, depositUSD = v, withdrawUSD = Fin 0,
      totalUSD = v, netUSD = v, datetime = Some (2023, 1, 1), year = Some 2023,
      month = Some ''2023-01''\<rparr>"

definition inf_frame :: "frame_row list" where
  "inf_frame =
     [sample_usd_row 1 ''A'' PInf, sample_usd_row 1 ''A'' NInf, sample_usd_row 2 ''B'' (Fin 5)]"

definition sample_agg :: "int \<Rightarrow> string \<Rightarrow> real \<Rightarrow> int agg_row" where
  "sample_agg bid name v =
     \<lparr>bridgeId = bid, bridgeName = name, depositUSD = Fin v, withdrawUSD = Fin 0,
      totalUSD = Fin v, netUSD = Fin v, period = 2023\<rparr>"

definition sample_top :: "int \<Rightarrow> string \<Rightarrow> real \<Rightarrow> pyfloat \<Rightarrow> int top_row" where
  "sample_top bid name v s =
     \<lparr>bridgeId = bid, bridgeName = name, depositUSD = Fin v, withdrawUSD = Fin 0,
      totalUSD = Fin v, netUSD = Fin v, period = 2023, shares = s\<rparr>"

section \<open>Floating-point sums: properties\<close>

lemma fsum_fin: "\<forall>x \<in> set xs. is_fin x \<Longrightarrow> fsum xs = Fin (sum_list (map fin_val xs))"
proof (induction xs)
  case Nil
  show ?case by simp
next
  case (Cons x xs)
  then obtain a where "x = Fin a" by (cases x) auto
  with Cons show ?case by simp
qed

lemma pd_sum_fin: "\<forall>x \<in> set xs. is_fin x \<Longrightarrow> pd_sum xs = Fin (sum_list (map fin_val xs))"
proof -
  assume fin: "\<forall>x \<in> set xs. is_fin x"
  have "\<not> isnan x" if "x \<in> set xs" for x
  proof -
    from that fin have "is_fin x" by blast
    then show ?thesis by (cases x) auto
  qed
  then have "filter (\<lambda>x. \<not> isnan x) xs = xs" by (simp add: filter_id_conv)
  with fin show ?thesis by (simp add: pd_sum_def fsum_fin)
qed

lemma rint_close: "\<bar>of_int (rint y) - y\<bar> \<le> 1 / 2"
proof -
  have "of_int \<lfloor>y\<rfloor> \<le> y" and "y < of_int \<lfloor>y\<rfloor> + 1" by linarith+
  then show ?thesis by (auto simp: rint_def Let_def)
qed

section \<open>Numeric coercion: properties\<close>

lemmas parse_defs = to_float_def strip_def isspace_def candidates_def replace_def
  float_of_str_def is_digit_def digit_val_def parse_decimal_def parse_exponent_def
  digits_val_def lower_def

lemma candidates_of_english_style:
  "candidates ''1,234.56'' = [''1,234.56'', ''1.23456'', ''1234.56'']
   \<and> float_of_str ''1,234.56'' = None
   \<and> float_of_str ''1.23456'' = Some (Fin (123456 / 100000))"
  by (simp add: parse_defs dbl_over_def)

text \<open>
  C1. The values of \<open>to_float\<close> at the five test inputs of the specification. Four
  are as stated: \<open>"1.234,56"\<close> gives 1234.56, and the empty string, \<open>None\<close> and
  \<open>"abc"\<close> give 0.0. The fifth is not: for \<open>"1,234.56"\<close> the candidates are tried in
  the stated order, the first (\<open>"1,234.56"\<close>) is refused by \<open>float\<close>, and the second
  (points removed, comma turned into a point: \<open>"1.23456"\<close>) parses, so the result is
  1.23456 and the third candidate, which would give 1234.56, is never reached.
\<close>

theorem to_float_test_values:
  "to_float (JStr ''1.234,56'') = Inr (Fin (123456 / 100))
   \<and> to_float (JStr ''1,234.56'') = Inr (Fin (123456 / 100000))
   \<and> to_float (JStr ''1,234.56'') \<noteq> Inr (Fin (123456 / 100))
   \<and> to_float (JStr []) = Inr (Fin 0)
   \<and> to_float JNull = Inr (Fin 0)
   \<and> to_float (JStr ''abc'') = Inr (Fin 0)"
  by (simp add: parse_defs dbl_over_def)

section \<open>Resilient JSON fetcher: properties\<close>

lemma http_loop_attempts:
  "attempts (http_loop get url ps m a d l) \<le> nat (m + 1 - a)"
proof (induction get url ps m a d l rule: http_loop.induct)
  case (1 get url ps m a d l)
  show ?case
  proof (cases "m < a")
    case True
    then show ?thesis by (simp add: http_loop.simps [of get url ps m a])
  next
    case False
    show ?thesis
    proof (cases "get (nat a)")
      case (Inr body)
      with False show ?thesis by (simp add: http_loop.simps [of get url ps m a])
    next
      case (Inl e)
      show ?thesis
      proof (cases "a = m \<or> d < 0")
        case True
        with False Inl show ?thesis by (auto simp: http_loop.simps [of get url ps m a])
      next
        case stay: False
        with False Inl 1 [of e] have "attempts (http_loop get url ps m (a + 1) (min (d * 2) 8) (Some e))
            \<le> nat (m + 1 - (a + 1))" by simp
        with False Inl stay show ?thesis
          by (simp add: http_loop.simps [of get url ps m a] Let_def)
      qed
    qed
  qed
qed

lemma http_loop_success:
  "0 \<le> d \<Longrightarrow> a + int j \<le> m \<Longrightarrow> (\<forall>i < j. isl (get (nat (a + int i))))
   \<Longrightarrow> get (nat (a + int j)) = Inr body
   \<Longrightarrow> http_loop get url ps m a d l =
         \<lparr>result = Inr body, attempts = Suc j, sleeps = backoff d j\<rparr>"
proof (induction j arbitrary: a d l)
  case 0
  then show ?case by (simp add: http_loop.simps [of get url ps m a])
next
  case (Suc j)
  from Suc.prems(3) have "isl (get (nat a))" by force
  then obtain e where e: "get (nat a) = Inl e" by (cases "get (nat a)") auto
  have "http_loop get url ps m (a + 1) (min (d * 2) 8) (Some e) =
      \<lparr>result = Inr body, attempts = Suc j, sleeps = backoff (min (d * 2) 8) j\<rparr>"
  proof (rule Suc.IH)
    show "0 \<le> min (d * 2) 8" using Suc.prems(1) by simp
    show "a + 1 + int j \<le> m" using Suc.prems(2) by simp
    show "\<forall>i<j. isl (get (nat (a + 1 + int i)))"
    proof (intro allI impI)
      fix i assume "i < j"
      then have "isl (get (nat (a + int (Suc i))))" using Suc.prems(3) by blast
      then show "isl (get (nat (a + 1 + int i)))" by (simp add: add.assoc)
    qed
    show "get (nat (a + 1 + int j)) = Inr body" using Suc.prems(4) by (simp add: add.assoc)
  qed
  with e Suc.prems(1,2) show ?case
    by (simp add: http_loop.simps [of get url ps m a] Let_def)
qed

lemma http_loop_exhausted:
  "0 \<le> d \<Longrightarrow> a + int j = m \<Longrightarrow> (\<forall>i \<le> j. isl (get (nat (a + int i))))
   \<Longrightarrow> \<exists>e. get (nat m) = Inl e \<and>
         http_loop get url ps m a d l =
           \<lparr>result = Inl (GetFailed url ps (Some e)), attempts = Suc j, sleeps = backoff d j\<rparr>"
proof (induction j arbitrary: a d l)
  case 0
  then have "isl (get (nat a))" by force
  then obtain e where e: "get (nat a) = Inl e" by (cases "get (nat a)") auto
  with 0 show ?case by (auto simp: http_loop.simps [of get url ps m m])
next
  case (Suc j)
  from Suc.prems(3) have "isl (get (nat (a + int 0)))" by blast
  then obtain e where e: "get (nat a) = Inl e" by (cases "get (nat a)") auto
  have "\<exists>e'. get (nat m) = Inl e' \<and>
      http_loop get url ps m (a + 1) (min (d * 2) 8) (Some e) =
      \<lparr>result = Inl (GetFailed url ps (Some e')), attempts = Suc j,
       sleeps = backoff (min (d * 2) 8) j\<rparr>"
  proof (rule Suc.IH)
    show "0 \<le> min (d * 2) 8" using Suc.prems(1) by simp
    show "a + 1 + int j = m" using Suc.prems(2) by simp
    show "\<forall>i\<le>j. isl (get (nat (a + 1 + int i)))"
    proof (intro allI impI)
      fix i assume "i \<le> j"
      then have "isl (get (nat (a + int (Suc i))))" using Suc.prems(3) by auto
      then show "isl (get (nat (a + 1 + int i)))" by (simp add: add.assoc)
    qed
  qed
  with e Suc.prems(1,2) show ?case
    by (auto simp: http_loop.simps [of get url ps m a] Let_def)
qed

text \<open>
  C8. For at least one allowed attempt and a pause that is not negative:
  the number of attempts never exceeds \<open>max_retries\<close>; if attempt \<open>k\<close> is
  the first to succeed, the call returns its body after exactly \<open>k\<close> attempts, having
  slept the first \<open>k - 1\<close> pauses of the sequence that starts at \<open>initial_delay\<close> and
  doubles up to 8 seconds; and if all \<open>max_retries\<close> attempts fail, the call raises the
  error that carries the URL, the parameters and the exception of the last attempt,
  after \<open>max_retries\<close> attempts and \<open>max_retries - 1\<close> pauses.
\<close>

theorem http_get_json_retries:
  assumes "1 \<le> max_retries" and "0 \<le> initial_delay"
  shows "attempts (http_get_json get url ps max_retries initial_delay) \<le> nat max_retries
    \<and> (\<forall>k body. 1 \<le> k \<and> k \<le> nat max_retries \<and> (\<forall>i. 1 \<le> i \<and> i < k \<longrightarrow> isl (get i))
           \<and> get k = Inr body \<longrightarrow>
         http_get_json get url ps max_retries initial_delay =
           \<lparr>result = Inr body, attempts = k, sleeps = backoff initial_delay (k - 1)\<rparr>)
    \<and> ((\<forall>i. 1 \<le> i \<and> i \<le> nat max_retries \<longrightarrow> isl (get i)) \<longrightarrow>
         (\<exists>e. get (nat max_retries) = Inl e \<and>
           http_get_json get url ps max_retries initial_delay =
             \<lparr>result = Inl (GetFailed url ps (Some e)), attempts = nat max_retries,
              sleeps = backoff initial_delay (nat max_retries - 1)\<rparr>))"
proof (intro conjI allI impI)
  show "attempts (http_get_json get url ps max_retries initial_delay) \<le> nat max_retries"
    using http_loop_attempts [of get url ps max_retries 1 initial_delay None]
    by (simp add: http_get_json_def)
next
  fix k body
  assume h: "1 \<le> k \<and> k \<le> nat max_retries \<and> (\<forall>i. 1 \<le> i \<and> i < k \<longrightarrow> isl (get i))
    \<and> get k = Inr body"
  then obtain j where j: "k = Suc j" by (cases k) auto
  have "http_loop get url ps max_retries 1 initial_delay None =
      \<lparr>result = Inr body, attempts = Suc j, sleeps = backoff initial_delay j\<rparr>"
  proof (rule http_loop_success)
    show "0 \<le> initial_delay" by (rule assms(2))
    show "1 + int j \<le> max_retries" using h j by linarith
    show "\<forall>i<j. isl (get (nat (1 + int i)))"
    proof (intro allI impI)
      fix i assume "i < j"
      then have "isl (get (Suc i))" using h j by simp
      moreover have "nat (1 + int i) = Suc i" by simp
      ultimately show "isl (get (nat (1 + int i)))" by simp
    qed
    have "nat (1 + int j) = k" using j by simp
    then show "get (nat (1 + int j)) = Inr body" using h by simp
  qed
  then show "http_get_json get url ps max_retries initial_delay =
      \<lparr>result = Inr body, attempts = k, sleeps = backoff initial_delay (k - 1)\<rparr>"
    using j by (simp add: http_get_json_def)
next
  assume h: "\<forall>i. 1 \<le> i \<and> i \<le> nat max_retries \<longrightarrow> isl (get i)"
  from assms(1) obtain j where j: "nat max_retries = Suc j" by (cases "nat max_retries") auto
  have "\<exists>e. get (nat max_retries) = Inl e \<and>
      http_loop get url ps max_retries 1 initial_delay None =
      \<lparr>result = Inl (GetFailed url ps (Some e)), attempts = Suc j,
       sleeps = backoff initial_delay j\<rparr>"
  proof (rule http_loop_exhausted)
    show "0 \<le> initial_delay" by (rule assms(2))
    show "1 + int j = max_retries" using j assms(1) by linarith
    show "\<forall>i\<le>j. isl (get (nat (1 + int i)))"
    proof (intro allI impI)
      fix i assume "i \<le> j"
      then have "isl (get (Suc i))" using h j by simp
      moreover have "nat (1 + int i) = Suc i" by simp
      ultimately show "isl (get (nat (1 + int i)))" by simp
    qed
  qed
  then show "\<exists>e. get (nat max_retries) = Inl e \<and>
      http_get_json get url ps max_retries initial_delay =
      \<lparr>result = Inl (GetFailed url ps (Some e)), attempts = nat max_retries,
       sleeps = backoff initial_delay (nat max_retries - 1)\<rparr>"
    using j by (simp add: http_get_json_def)
qed

theorem http_get_json_retries_witness:
  "http_get_json flaky ''u'' None 5 (4 / 10) =
     \<lparr>result = Inr (JStr ''payload''), attempts = 3, sleeps = [4 / 10, 8 / 10]\<rparr>
   \<and> http_get_json down ''u'' None 3 5 =
     \<lparr>result = Inl (GetFailed ''u'' None (Some (TransportError ''last''))), attempts = 3,
      sleeps = [5, 8]\<rparr>"
  using http_get_json_retries [of 5 "4 / 10" flaky "''u''" None, THEN conjunct2,
      THEN conjunct1, rule_format, of 3 "JStr ''payload''"]
    http_get_json_retries [of 3 5 down "''u''" None]
  by (simp add: flaky_def down_def eval_nat_numeral)

lemma http_first_attempt:
  "get (Suc 0) = Inr body \<Longrightarrow> result (http_get_json get url ps 5 d) = Inr body"
  by (simp add: http_get_json_def http_loop.simps[of get url ps 5 1])

section \<open>Daily row collector: properties\<close>

lemma make_row_sums:
  assumes "make_row bid names r = Inr row"
  shows "totalUSD row = fadd (depositUSD row) (withdrawUSD row)"
    and "netUSD row = fsub (depositUSD row) (withdrawUSD row)"
  using assms by (auto simp: make_row_def Let_def split: sum.splits)

lemma make_row_id: "make_row bid names r = Inr row \<Longrightarrow> bridgeId row = bid"
  by (auto simp: make_row_def Let_def split: sum.splits)

lemma rows_of_hist_made:
  "row \<in> set (fst (rows_of_hist bid names hist))
   \<Longrightarrow> \<exists>r \<in> set hist. make_row bid names r = Inr row"
  by (induction hist) (auto split: sum.splits prod.splits)

lemma bridge_rows_made:
  assumes "row \<in> set (fst (bridge_rows srv names i bid))"
  shows "\<exists>r. make_row bid names r = Inr row"
proof (cases "fetch_bridge_daily_all (srv i bid) bid")
  case (Inl e)
  with assms show ?thesis by (simp add: bridge_rows_def)
next
  case (Inr hist)
  with assms have "row \<in> set (fst (rows_of_hist bid names hist))"
    by (auto simp: bridge_rows_def split: prod.splits option.splits)
  then show ?thesis using rows_of_hist_made by blast
qed

lemma bridge_rows_failed:
  "fetch_bridge_daily_all (srv i bid) bid = Inl e
   \<Longrightarrow> bridge_rows srv names i bid = ([], [(bid, e)])"
  by (simp add: bridge_rows_def)

text \<open>
  The collector's result is what the turns of its loop contribute, in order: turn
  \<open>k\<close> (from 0) makes call number \<open>i + k\<close> for the id at position \<open>k\<close>.
\<close>

lemma collect_from_concat:
  "collect_from srv names i ids =
     (concat (map (\<lambda>k. fst (bridge_rows srv names (i + k) (ids ! k))) [0..<length ids]),
      concat (map (\<lambda>k. snd (bridge_rows srv names (i + k) (ids ! k))) [0..<length ids]))"
proof (induction ids arbitrary: i)
  case Nil
  show ?case by simp
next
  case (Cons bid bids)
  have shift: "map f [0..<Suc n] = f 0 # map (\<lambda>k. f (Suc k)) [0..<n]" for f :: "nat \<Rightarrow> 'b" and n
    by (simp add: upt_conv_Cons map_Suc_upt[symmetric] del: upt_Suc)
  show ?case
    by (simp add: Cons.IH shift split: prod.splits del: upt_Suc)
qed

lemma collect_rows_concat:
  "fst (collect_daily_rows srv ids names d) =
     concat (map (\<lambda>k. fst (bridge_rows srv names (Suc k) (ids ! k))) [0..<length ids])"
  by (simp add: collect_daily_rows_def collect_from_concat)

lemma collect_warnings_concat:
  "snd (collect_daily_rows srv ids names d) =
     concat (map (\<lambda>k. snd (bridge_rows srv names (Suc k) (ids ! k))) [0..<length ids])"
  by (simp add: collect_daily_rows_def collect_from_concat)

lemma collect_rows_made:
  assumes "row \<in> set (fst (collect_daily_rows srv ids names d))"
  shows "\<exists>k < length ids. \<exists>r. make_row (ids ! k) names r = Inr row"
proof -
  from assms obtain k where "k < length ids"
    and "row \<in> set (fst (bridge_rows srv names (Suc k) (ids ! k)))"
    by (auto simp: collect_rows_concat)
  then show ?thesis using bridge_rows_made by blast
qed

lemma sample_ts: "ts_of sample_record = - 86400"
  by (simp add: ts_of_def sample_record_def py_get_def py_int_def nz_def)

lemma sample_make_row: "make_row 1 sample_names sample_record = Inr sample_row"
  unfolding make_row_def sample_ts date_iso_of_def
  by (simp add: sample_record_def py_get_def nz_def to_float_def dbl_over_def
      sample_names_def sample_row_def fsub_def)

lemma sample_fetch_1:
  "fetch_bridge_daily_all (sample_server i 1) 1 = Inr [sample_record]"
  by (simp add: fetch_bridge_daily_all_def http_first_attempt sample_server_def
      sample_record_def has_date_def)

lemma sample_fetch_2:
  "fetch_bridge_daily_all (sample_server i 2) 2 =
     Inl (UnexpectedFormat BRIDGE_VOLUME_URL (JObj [(''error'', JStr ''no such bridge'')]))"
  by (simp add: fetch_bridge_daily_all_def http_first_attempt sample_server_def)

lemma sample_collect:
  "collect_daily_rows sample_server [1, 2] sample_names 0 =
     ([sample_row],
      [(2, UnexpectedFormat BRIDGE_VOLUME_URL (JObj [(''error'', JStr ''no such bridge'')]))])"
  by (simp add: collect_daily_rows_def bridge_rows_def sample_fetch_1 sample_fetch_2
      sample_make_row)

text \<open>
  C6. Every row the collector returns, for any remote side, id list and name map, has
  \<open>totalUSD = depositUSD + withdrawUSD\<close> and \<open>netUSD = depositUSD - withdrawUSD\<close>, the
  sum and the difference being those of floats. The two sides are the same float; where
  that float is NaN, Python's \<open>==\<close> would still call them different.
\<close>

theorem daily_row_sums:
  assumes "row \<in> set (fst (collect_daily_rows srv ids_all names d))"
  shows "totalUSD row = fadd (depositUSD row) (withdrawUSD row)
         \<and> netUSD row = fsub (depositUSD row) (withdrawUSD row)"
proof -
  from collect_rows_made [OF assms] obtain bid r where "make_row bid names r = Inr row"
    by blast
  then show ?thesis using make_row_sums by blast
qed

theorem daily_row_sums_witness:
  "sample_row \<in> set (fst (collect_daily_rows sample_server [1, 2] sample_names 0))
   \<and> totalUSD sample_row = fadd (depositUSD sample_row) (withdrawUSD sample_row)
   \<and> netUSD sample_row = fsub (depositUSD sample_row) (withdrawUSD sample_row)"
  using daily_row_sums [of sample_row sample_server "[1, 2]" sample_names 0]
  by (simp add: sample_collect)

text \<open>
  \<open>to_float\<close> raises for one kind of argument only: an integer too large for a double.
\<close>

lemma to_float_raises:
  "to_float x = Inl e \<Longrightarrow> e = OverflowError \<and> (\<exists>n. x = JInt n \<and> dbl_over \<le> \<bar>of_int n\<bar>)"
  by (cases x) (auto simp: to_float_def Let_def split: if_splits option.splits)

lemma oversized_amount_gives_no_row:
  "make_row 1 sample_names
     (JObj [(''date'', JInt (- 1)), (''depositUSD'', JInt (10 ^ 309)), (''withdrawUSD'', JInt 2)])
   = Inl OverflowError"
  by (simp add: make_row_def ts_of_def date_iso_of_def py_get_def py_int_def nz_def
      to_float_def dbl_over_def)

text \<open>
  C10. Take a raw record whose time stamp, as lines 154 to 157 coerce it, is zero or
  negative. Every row the loop body makes of it has the date \<open>1970-01-01\<close>: the test is
  \<open>ts > 0\<close>, so a negative time stamp is treated like a missing one. And the body does
  make a row, with that date, whenever the record is a dictionary and \<open>to_float\<close>
  returns for its two amounts (it raises only for an integer too large for a double,
  and then the record gives no row).
\<close>

theorem nonpositive_timestamp_date:
  assumes "ts_of r \<le> 0"
  shows "(\<forall>row. make_row bid names r = Inr row \<longrightarrow> date row = ''1970-01-01'')
         \<and> (\<forall>dv wv dep wd.
               py_get r ''depositUSD'' = Inr dv \<and> to_float (nz dv (JInt 0)) = Inr dep
               \<and> py_get r ''withdrawUSD'' = Inr wv \<and> to_float (nz wv (JInt 0)) = Inr wd
               \<longrightarrow> (\<exists>row. make_row bid names r = Inr row
                      \<and> date row = ''1970-01-01''
                      \<and> depositUSD row = dep \<and> withdrawUSD row = wd))"
  using assms
  by (auto simp: make_row_def date_iso_of_def split: sum.splits)

theorem nonpositive_timestamp_date_witness:
  "ts_of sample_record = - 86400
   \<and> (\<exists>row. make_row 1 sample_names sample_record = Inr row \<and> date row = ''1970-01-01''
          \<and> depositUSD row = Fin 7 \<and> withdrawUSD row = Fin 2)"
proof -
  have ts: "ts_of sample_record \<le> 0"
    by (simp add: sample_ts)
  have amounts: "py_get sample_record ''depositUSD'' = Inr (JInt 7)
      \<and> to_float (nz (JInt 7) (JInt 0)) = Inr (Fin 7)
      \<and> py_get sample_record ''withdrawUSD'' = Inr (JInt 2)
      \<and> to_float (nz (JInt 2) (JInt 0)) = Inr (Fin 2)"
    by (simp add: sample_record_def py_get_def nz_def to_float_def dbl_over_def)
  from nonpositive_timestamp_date [OF ts, of 1 sample_names] amounts
  have "\<exists>row. make_row 1 sample_names sample_record = Inr row \<and> date row = ''1970-01-01''
      \<and> depositUSD row = Fin 7 \<and> withdrawUSD row = Fin 2"
    by blast
  then show ?thesis by (simp add: sample_ts)
qed

text \<open>
  C9. Let every call that loads the history of bridge \<open>b\<close> raise (call \<open>k + 1\<close> is the
  one for the id at position \<open>k\<close> of the list, and \<open>err k\<close> is what it raises). Then
  each of these calls leaves a warning that names \<open>b\<close> and the error, no row of the
  result has \<open>bridgeId = b\<close>, and the result is, in order, what the turns for the other
  ids contribute: the failure takes nothing away from them and does not end the loop.
\<close>

theorem failing_bridge_isolated:
  assumes "\<forall>k < length ids. ids ! k = b \<longrightarrow>
             fetch_bridge_daily_all (srv (Suc k) b) b = Inl (err k)"
  shows "(\<forall>k < length ids. ids ! k = b \<longrightarrow>
            (b, err k) \<in> set (snd (collect_daily_rows srv ids names d)))
         \<and> (\<forall>row \<in> set (fst (collect_daily_rows srv ids names d)). bridgeId row \<noteq> b)
         \<and> fst (collect_daily_rows srv ids names d) =
             concat (map (\<lambda>k. fst (bridge_rows srv names (Suc k) (ids ! k)))
                       (filter (\<lambda>k. ids ! k \<noteq> b) [0..<length ids]))"
proof (intro conjI allI impI ballI)
  fix k assume "k < length ids" and "ids ! k = b"
  with assms have "snd (bridge_rows srv names (Suc k) (ids ! k)) = [(b, err k)]"
    by (simp add: bridge_rows_failed)
  with \<open>k < length ids\<close> show "(b, err k) \<in> set (snd (collect_daily_rows srv ids names d))"
    unfolding collect_warnings_concat by force
next
  have none: "fst (bridge_rows srv names (Suc k) (ids ! k)) = []"
    if "k < length ids" and "ids ! k = b" for k
    using that assms by (simp add: bridge_rows_failed)
  have "concat (map f ks) = concat (map f (filter (\<lambda>k. ids ! k \<noteq> b) ks))"
    if "\<forall>k \<in> set ks. ids ! k = b \<longrightarrow> f k = []" for f :: "nat \<Rightarrow> daily_row list" and ks
    using that by (induction ks) auto
  from this [of "[0..<length ids]" "\<lambda>k. fst (bridge_rows srv names (Suc k) (ids ! k))"]
  show eq: "fst (collect_daily_rows srv ids names d) =
      concat (map (\<lambda>k. fst (bridge_rows srv names (Suc k) (ids ! k)))
                (filter (\<lambda>k. ids ! k \<noteq> b) [0..<length ids]))"
    unfolding collect_rows_concat using none by simp
  fix row assume "row \<in> set (fst (collect_daily_rows srv ids names d))"
  then obtain k where "ids ! k \<noteq> b"
    and "row \<in> set (fst (bridge_rows srv names (Suc k) (ids ! k)))"
    unfolding eq by auto
  then show "bridgeId row \<noteq> b"
    using bridge_rows_made make_row_id by metis
qed

theorem failing_bridge_isolated_witness:
  "fetch_bridge_daily_all (sample_server 2 2) 2 =
     Inl (UnexpectedFormat BRIDGE_VOLUME_URL (JObj [(''error'', JStr ''no such bridge'')]))
   \<and> (2, UnexpectedFormat BRIDGE_VOLUME_URL (JObj [(''error'', JStr ''no such bridge'')]))
       \<in> set (snd (collect_daily_rows sample_server [1, 2] sample_names 0))
   \<and> fst (collect_daily_rows sample_server [1, 2] sample_names 0) = [sample_row]
   \<and> bridgeId sample_row \<noteq> 2"
  using failing_bridge_isolated [of "[1, 2]" 2 sample_server
      "\<lambda>k. UnexpectedFormat BRIDGE_VOLUME_URL (JObj [(''error'', JStr ''no such bridge'')])"
      sample_names 0]
  by (simp add: sample_fetch_2 sample_collect sample_row_def)

text \<open>
  An exception inside the loop over a history that did load ends the turn with a
  warning as well, but the rows appended before it stay: here the second record is not
  a dictionary.
\<close>

lemma rows_before_an_exception_stay:
  "rows_of_hist 1 sample_names [sample_record, JNull] = ([sample_row], Some AttributeError)"
  by (simp add: sample_make_row) (simp add: make_row_def ts_of_def date_iso_of_def py_get_def)

section \<open>Month filter: properties\<close>

lemma char_less_eval: "(c :: char) < d \<longleftrightarrow> (of_char c :: nat) < of_char d"
  by (simp add: less_char_def)

lemma month_order_samples:
  "\<not> ''2022-10'' \<le> ''2022-09''" "''2022-10'' \<le> ''2022-10''" "''2022-10'' \<le> ''2025-08''"
  "''2022-10'' \<le> ''2023-01''" "\<not> ''2023-01'' \<le> []"
  by (simp_all add: char_less_eval)

text \<open>
  C7. With a non-empty upper bound, the rows kept by lines 283 to 286 are exactly
  those whose month string is there and lies between the two bounds, both included, in
  the order of strings. (An empty lower bound is below every string, so the same holds
  for it; an empty upper bound is the case the claim leaves out, see below.)
\<close>

theorem month_filter_bounds:
  assumes "end_m \<noteq> []"
  shows "filter_months start_m end_m df =
           filter (\<lambda>r. case month r of
                          Some m \<Rightarrow> start_m \<le> m \<and> m \<le> end_m
                        | None \<Rightarrow> False) df"
proof -
  have "filter P (filter Q df) = filter (\<lambda>r. Q r \<and> P r) df" for P Q :: "frame_row \<Rightarrow> bool"
    by (induction df) auto
  moreover have "[] \<le> m" for m :: string
    by (cases m) simp_all
  ultimately show ?thesis
    using assms
    by (auto simp: filter_months_def Let_def split: option.splits intro!: filter_cong)
qed

theorem month_filter_bounds_witness:
  "filter_months ''2022-10'' ''2025-08''
     [sample_frame_row (2022, 9, 30) ''2022-09'', sample_frame_row (2022, 10, 1) ''2022-10'']
   = [sample_frame_row (2022, 10, 1) ''2022-10'']"
  using month_filter_bounds [of "''2025-08''" "''2022-10''"
      "[sample_frame_row (2022, 9, 30) ''2022-09'', sample_frame_row (2022, 10, 1) ''2022-10'']"]
  by (simp add: sample_frame_row_def month_order_samples)

text \<open>
  An empty \<open>end_month\<close> switches the upper filter off (\<open>if args.end_month:\<close>): the row
  of January 2023 is kept although its month is not below the empty string.
\<close>

theorem month_filter_empty_end:
  "filter_months ''2022-10'' [] [sample_frame_row (2023, 1, 1) ''2023-01'']
     = [sample_frame_row (2023, 1, 1) ''2023-01'']
   \<and> month (sample_frame_row (2023, 1, 1) ''2023-01'') = Some ''2023-01''
   \<and> \<not> (''2022-10'' \<le> ''2023-01'' \<and> ''2023-01'' \<le> [])"
  by (simp add: filter_months_def sample_frame_row_def month_order_samples)

text \<open>In general: without an upper bound only the lower one filters.\<close>

lemma month_filter_no_upper_bound:
  "filter_months start_m [] df =
     (if start_m = [] then df
      else filter (\<lambda>r. case month r of Some m \<Rightarrow> start_m \<le> m | None \<Rightarrow> False) df)"
  by (simp add: filter_months_def)

section \<open>Aggregation: properties\<close>

lemma sum_list_single:
  "distinct ks \<Longrightarrow>
   sum_list (map (\<lambda>k. if k = j then a else (0 :: real)) ks) = (if j \<in> set ks then a else 0)"
  by (induction ks) auto

text \<open>
  Summing group by group, over distinct keys, is summing over the rows that have one of
  the keys.
\<close>

lemma sum_by_groups:
  fixes g :: "'a \<Rightarrow> real"
  assumes "distinct ks"
  shows "sum_list (map (\<lambda>k. sum_list (map g (filter (\<lambda>r. K r = Some k) xs))) ks)
         = sum_list (map g (filter (\<lambda>r. \<exists>k \<in> set ks. K r = Some k) xs))"
proof (induction xs)
  case Nil
  show ?case by simp
next
  case (Cons x xs)
  let ?S = "\<lambda>k. sum_list (map g (filter (\<lambda>r. K r = Some k) xs))"
  have "sum_list (map (\<lambda>k. sum_list (map g (filter (\<lambda>r. K r = Some k) (x # xs)))) ks)
      = sum_list (map (\<lambda>k. (if Some k = K x then g x else 0) + ?S k) ks)"
    by (intro arg_cong [where f = sum_list] map_cong) auto
  also have "\<dots> = sum_list (map (\<lambda>k. if Some k = K x then g x else 0) ks)
      + sum_list (map ?S ks)"
    by (simp add: sum_list_addf)
  also have "sum_list (map (\<lambda>k. if Some k = K x then g x else 0) ks)
      = (if \<exists>k \<in> set ks. K x = Some k then g x else 0)"
  proof (cases "K x")
    case None
    then show ?thesis by simp
  next
    case (Some j)
    with sum_list_single [OF assms, of j "g x"] show ?thesis by (simp add: eq_commute)
  qed
  finally show ?case using Cons.IH by simp
qed

lemma sum_list_insort:
  "sum_list (map h (insort_key f y ys)) = (h y :: real) + sum_list (map h ys)"
  by (induction ys) auto

lemma sum_list_sort: "sum_list (map h (sort_key f ys)) = (sum_list (map h ys) :: real)"
  by (induction ys) (auto simp: sum_list_insort)

lemma pd_sum_sort:
  assumes "\<forall>y \<in> set ys. is_fin (w y)"
  shows "pd_sum (map w (sort_key f ys)) = pd_sum (map w ys)"
proof -
  have "pd_sum (map w (sort_key f ys)) = Fin (sum_list (map fin_val (map w (sort_key f ys))))"
    using assms by (intro pd_sum_fin) simp
  moreover have "pd_sum (map w ys) = Fin (sum_list (map fin_val (map w ys)))"
    using assms by (intro pd_sum_fin) simp
  ultimately show ?thesis
    using sum_list_sort [of "\<lambda>y. fin_val (w y)" f ys] by (simp add: comp_def)
qed

lemma groupby_keys:
  "set (List.map_filter (group_key per) df) = {k. \<exists>r \<in> set df. group_key per r = Some k}"
  by (force simp: List.map_filter_def)

lemma group_sums:
  fixes w :: "('p :: linorder) agg_row \<Rightarrow> pyfloat"
  assumes fin: "\<forall>r \<in> set df. is_fin (v r)"
    and agg: "\<And>k. w (agg_group per df k)
                = pd_sum (map v (filter (\<lambda>r. group_key per r = Some k) df))"
  shows "pd_sum (map w (filter (\<lambda>a. period a = p) (groupby_agg per df)))
           = pd_sum (map v (filter (\<lambda>r. per r = Some p) df))"
    and "\<forall>a \<in> set (groupby_agg per df). is_fin (w a)"
proof -
  let ?K = "group_key per"
  let ?g = "\<lambda>r. fin_val (v r)"
  let ?ks = "sort (remdups (List.map_filter ?K df))"
  let ?kp = "filter (\<lambda>k. snd (snd k) = p) ?ks"
  have cell: "w (agg_group per df k) = Fin (sum_list (map ?g (filter (\<lambda>r. ?K r = Some k) df)))"
    for k
    using fin by (simp add: agg pd_sum_fin comp_def)
  show "\<forall>a \<in> set (groupby_agg per df). is_fin (w a)"
    by (auto simp: groupby_agg_def cell)
  have per: "period (agg_group per df k) = snd (snd k)" for k
    by (simp add: agg_group_def Let_def)
  have "filter (\<lambda>a. period a = p) (groupby_agg per df) = map (agg_group per df) ?kp"
    by (simp add: groupby_agg_def filter_map comp_def per)
  then have "pd_sum (map w (filter (\<lambda>a. period a = p) (groupby_agg per df)))
      = pd_sum (map (\<lambda>k. Fin (sum_list (map ?g (filter (\<lambda>r. ?K r = Some k) df)))) ?kp)"
    by (simp add: comp_def cell)
  also have "\<dots> = Fin (sum_list (map (\<lambda>k. sum_list (map ?g (filter (\<lambda>r. ?K r = Some k) df))) ?kp))"
    by (subst pd_sum_fin) (simp_all add: comp_def)
  also have "sum_list (map (\<lambda>k. sum_list (map ?g (filter (\<lambda>r. ?K r = Some k) df))) ?kp)
      = sum_list (map ?g (filter (\<lambda>r. \<exists>k \<in> set ?kp. ?K r = Some k) df))"
    by (rule sum_by_groups) simp
  also have "filter (\<lambda>r. \<exists>k \<in> set ?kp. ?K r = Some k) df = filter (\<lambda>r. per r = Some p) df"
  proof (rule filter_cong [OF refl])
    fix r assume "r \<in> set df"
    then show "(\<exists>k \<in> set ?kp. ?K r = Some k) \<longleftrightarrow> per r = Some p"
      by (cases "per r") (auto simp: groupby_keys group_key_def)
  qed
  also have "Fin (sum_list (map ?g (filter (\<lambda>r. per r = Some p) df)))
      = pd_sum (map v (filter (\<lambda>r. per r = Some p) df))"
    using fin by (subst pd_sum_fin) (simp_all add: comp_def)
  finally show "pd_sum (map w (filter (\<lambda>a. period a = p) (groupby_agg per df)))
      = pd_sum (map v (filter (\<lambda>r. per r = Some p) df))" .
qed

lemma group_sums_sorted:
  fixes w :: "('p :: linorder) agg_row \<Rightarrow> pyfloat"
  assumes fin: "\<forall>r \<in> set df. is_fin (v r)"
    and agg: "\<And>k. w (agg_group per df k)
                = pd_sum (map v (filter (\<lambda>r. group_key per r = Some k) df))"
  shows "pd_sum (map w (filter (\<lambda>a. period a = p) (sort_values (groupby_agg per df))))
           = pd_sum (map v (filter (\<lambda>r. per r = Some p) df))"
proof -
  have "\<forall>a \<in> set (filter (\<lambda>a. period a = p) (groupby_agg per df)). is_fin (w a)"
    using group_sums(2) [OF fin agg] by simp
  then have "pd_sum (map w (sort_key (\<lambda>a. (period a, desc_key (totalUSD a)))
        (filter (\<lambda>a. period a = p) (groupby_agg per df))))
      = pd_sum (map w (filter (\<lambda>a. period a = p) (groupby_agg per df)))"
    by (rule pd_sum_sort)
  then show ?thesis
    using group_sums(1) [OF fin agg] by (simp add: sort_values_def filter_sort)
qed

lemma sums_conserved_when_finite:
  assumes "\<forall>r \<in> set df. finite_usd r"
  shows "usd_sums (filter (\<lambda>a. period a = m) (fst (aggregate_monthly_yearly df)))
           = usd_sums (filter (\<lambda>r. month r = Some m) df)
         \<and> usd_sums (filter (\<lambda>a. period a = y) (snd (aggregate_monthly_yearly df)))
           = usd_sums (filter (\<lambda>r. year r = Some y) df)"
proof -
  have d: "\<forall>r \<in> set df. is_fin (depositUSD r)" and w: "\<forall>r \<in> set df. is_fin (withdrawUSD r)"
    and t: "\<forall>r \<in> set df. is_fin (totalUSD r)" and n: "\<forall>r \<in> set df. is_fin (netUSD r)"
    using assms by (simp_all add: finite_usd_def)
  have monthly: "usd_sums (filter (\<lambda>a. period a = m) (groupby_agg month df))
      = usd_sums (filter (\<lambda>r. month r = Some m) df)"
    unfolding usd_sums_def
    by (simp add: group_sums(1) [OF d] group_sums(1) [OF w] group_sums(1) [OF t]
        group_sums(1) [OF n] agg_group_def Let_def)
  have yearly: "usd_sums (filter (\<lambda>a. period a = y) (sort_values (groupby_agg year df)))
      = usd_sums (filter (\<lambda>r. year r = Some y) df)"
    unfolding usd_sums_def
    by (simp add: group_sums_sorted [OF d] group_sums_sorted [OF w] group_sums_sorted [OF t]
        group_sums_sorted [OF n] agg_group_def Let_def)
  from monthly yearly show ?thesis by (simp add: aggregate_monthly_yearly_def)
qed

lemma whole_is_fin: "is_whole x \<Longrightarrow> is_fin x"
  by (cases x) simp_all

text \<open>
  C4. On a frame on which no addition rounds (whole-number USD values whose absolute
  values total less than \<open>2^53\<close> in each column), for every month \<open>m\<close> the sums of
  \<open>depositUSD\<close>, \<open>withdrawUSD\<close>, \<open>totalUSD\<close> and \<open>netUSD\<close> over the rows of the monthly
  table with period \<open>m\<close> are the sums of the same columns over the rows of the frame
  whose month is \<open>m\<close>; and likewise for every year \<open>y\<close> and the yearly table. (On
  other frames the program adds doubles in two different groupings, and the model,
  which adds exactly, does not tell whether the two results agree.)
\<close>

theorem aggregation_conserves:
  assumes "exact_frame df"
  shows "usd_sums (filter (\<lambda>a. period a = m) (fst (aggregate_monthly_yearly df)))
           = usd_sums (filter (\<lambda>r. month r = Some m) df)
         \<and> usd_sums (filter (\<lambda>a. period a = y) (snd (aggregate_monthly_yearly df)))
           = usd_sums (filter (\<lambda>r. year r = Some y) df)"
proof -
  from assms have "\<forall>r \<in> set df. finite_usd r"
    by (simp add: exact_frame_def finite_usd_def whole_is_fin)
  then show ?thesis by (rule sums_conserved_when_finite)
qed

lemma sample_monthly:
  "fst (aggregate_monthly_yearly sample_frame) =
     [\<lparr>bridgeId = 1, bridgeName = ''A'', depositUSD = Fin 14, withdrawUSD = Fin 4,
       totalUSD = Fin 18, netUSD = Fin 10, period = ''2023-01''\<rparr>,
      \<lparr>bridgeId = 1, bridgeName = ''A'', depositUSD = Fin 7, withdrawUSD = Fin 2,
       totalUSD = Fin 9, netUSD = Fin 5, period = ''2023-02''\<rparr>]"
  by (simp add: aggregate_monthly_yearly_def groupby_agg_def agg_group_def group_key_def
      List.map_filter_def sample_frame_def sample_frame_row_def pd_sum_def
      less_char_def Let_def)

theorem aggregation_conserves_witness:
  "fst (aggregate_monthly_yearly sample_frame) =
     [\<lparr>bridgeId = 1, bridgeName = ''A'', depositUSD = Fin 14, withdrawUSD = Fin 4,
       totalUSD = Fin 18, netUSD = Fin 10, period = ''2023-01''\<rparr>,
      \<lparr>bridgeId = 1, bridgeName = ''A'', depositUSD = Fin 7, withdrawUSD = Fin 2,
       totalUSD = Fin 9, netUSD = Fin 5, period = ''2023-02''\<rparr>]
   \<and> usd_sums (filter (\<lambda>a. period a = ''2023-01'') (fst (aggregate_monthly_yearly sample_frame)))
       = (Fin 14, Fin 4, Fin 18, Fin 10)
   \<and> usd_sums (filter (\<lambda>r. month r = Some ''2023-01'') sample_frame)
       = (Fin 14, Fin 4, Fin 18, Fin 10)
   \<and> usd_sums (filter (\<lambda>a. period a = 2023) (snd (aggregate_monthly_yearly sample_frame)))
       = (Fin 21, Fin 6, Fin 27, Fin 15)
   \<and> usd_sums (filter (\<lambda>r. year r = Some 2023) sample_frame)
       = (Fin 21, Fin 6, Fin 27, Fin 15)"
proof -
  have exact: "exact_frame sample_frame"
    by (simp add: exact_frame_def abs_total_def sample_frame_def sample_frame_row_def)
  have m: "usd_sums (filter (\<lambda>r. month r = Some ''2023-01'') sample_frame)
      = (Fin 14, Fin 4, Fin 18, Fin 10)"
    and y: "usd_sums (filter (\<lambda>r. year r = Some 2023) sample_frame)
      = (Fin 21, Fin 6, Fin 27, Fin 15)"
    by (simp_all add: sample_frame_def sample_frame_row_def usd_sums_def pd_sum_def)
  from aggregation_conserves [OF exact, of "''2023-01''" 2023] m y sample_monthly
  show ?thesis by simp
qed

text \<open>
  With infinite values the sums are not conserved. In \<open>inf_frame\<close> the two deposits
  of bridge 1 cancel to NaN inside its group, and the column sum over the monthly
  table leaves that NaN out and is 5; the column sum over the three rows of the frame
  meets \<open>+inf\<close> and \<open>-inf\<close> and is NaN.
\<close>

lemma inf_monthly:
  "fst (aggregate_monthly_yearly inf_frame) =
     [\<lparr>bridgeId = 1, bridgeName = ''A'', depositUSD = NaN, withdrawUSD = Fin 0,
       totalUSD = NaN, netUSD = NaN, period = ''2023-01''\<rparr>,
      \<lparr>bridgeId = 2, bridgeName = ''B'', depositUSD = Fin 5, withdrawUSD = Fin 0,
       totalUSD = Fin 5, netUSD = Fin 5, period = ''2023-01''\<rparr>]"
  by (simp add: aggregate_monthly_yearly_def groupby_agg_def agg_group_def group_key_def
      List.map_filter_def inf_frame_def sample_usd_row_def pd_sum_def Let_def)

theorem conservation_fails_with_infinities:
  "usd_sums (filter (\<lambda>a. period a = ''2023-01'') (fst (aggregate_monthly_yearly inf_frame)))
     = (Fin 5, Fin 0, Fin 5, Fin 5)
   \<and> usd_sums (filter (\<lambda>r. month r = Some ''2023-01'') inf_frame)
     = (NaN, Fin 0, NaN, NaN)"
  by (simp add: inf_monthly usd_sums_def pd_sum_def)
    (simp add: inf_frame_def sample_usd_row_def)

section \<open>Top-N selection: properties\<close>

lemma head_from_subset: "set (head_from key n seen rs) \<subseteq> set rs"
  by (induction rs arbitrary: seen) (auto simp: Let_def)

lemma top_n_subset: "set (top_n_per_period tab n) \<subseteq> set tab"
  using head_from_subset [of period n "[]" "sort_values tab"]
  by (simp add: top_n_per_period_def groupby_head_def sort_values_def)

lemma head_from_count:
  "0 \<le> n \<Longrightarrow>
   length (filter (\<lambda>x. key x = k) (head_from key n seen rs))
     \<le> nat n - length (filter (\<lambda>x. key x = k) seen)"
proof (induction rs arbitrary: seen)
  case Nil
  show ?case by simp
next
  case (Cons r rs)
  from Cons.IH [OF Cons.prems, of "seen @ [r]"]
  show ?case using Cons.prems by (auto simp: Let_def)
qed

lemma head_from_position:
  "0 \<le> n \<Longrightarrow> x \<in> set (head_from key n seen rs) \<Longrightarrow>
   \<exists>i < length rs. rs ! i = x
     \<and> int (length (filter (\<lambda>y. key y = key x) (seen @ take i rs))) < n"
proof (induction rs arbitrary: seen)
  case Nil
  then show ?case by simp
next
  case (Cons r rs)
  show ?case
  proof (cases "x \<in> set (head_from key n (seen @ [r]) rs)")
    case True
    from Cons.IH [OF Cons.prems(1) True] obtain i where "i < length rs" and "rs ! i = x"
      and "int (length (filter (\<lambda>y. key y = key x) ((seen @ [r]) @ take i rs))) < n"
      by blast
    then have "Suc i < length (r # rs) \<and> (r # rs) ! Suc i = x
        \<and> int (length (filter (\<lambda>y. key y = key x) (seen @ take (Suc i) (r # rs)))) < n"
      by simp
    then show ?thesis by blast
  next
    case False
    with Cons.prems have "x = r"
      and "int (length (filter (\<lambda>y. key y = key r) seen)) < n"
      by (auto simp: Let_def split: if_splits)
    then have "0 < length (r # rs) \<and> (r # rs) ! 0 = x
        \<and> int (length (filter (\<lambda>y. key y = key x) (seen @ take 0 (r # rs)))) < n"
      by simp
    then show ?thesis by blast
  qed
qed

lemma fgt_desc_key: "fgt x y \<Longrightarrow> desc_key x < desc_key y"
  by (cases x; cases y) simp_all

lemma filter_length_mono:
  "(\<And>x. P x \<Longrightarrow> Q x) \<Longrightarrow> length (filter P xs) \<le> length (filter Q xs)"
  by (induction xs) auto

lemma filter_length_sort: "length (filter P (sort_key f xs)) = length (filter P xs)"
  by (simp add: filter_sort)

text \<open>
  In a list sorted by a key, the elements whose key is strictly below that of the
  element at position \<open>i\<close> all stand before \<open>i\<close>.
\<close>

lemma sorted_smaller_before:
  assumes "sorted (map f s)" and "i < length s" and "\<And>b. P b \<Longrightarrow> f b < f (s ! i)"
  shows "filter P s = filter P (take i s)"
proof -
  have "\<not> P y" if "y \<in> set (drop i s)" for y
  proof
    assume "P y"
    from that obtain k where k: "y = drop i s ! k" "k < length (drop i s)"
      by (auto simp: in_set_conv_nth)
    then have y: "y = s ! (i + k)" and len: "i + k < length s" by simp_all
    from assms(1) len have "map f s ! i \<le> map f s ! (i + k)"
      by (intro sorted_nth_mono) simp_all
    with assms(2) len y have "f (s ! i) \<le> f y" by simp
    with assms(3) [OF \<open>P y\<close>] show False by simp
  qed
  then have "filter P (drop i s) = []" by (simp add: filter_empty_conv)
  moreover have "filter P s = filter P (take i s) @ filter P (drop i s)"
    by (simp only: filter_append [symmetric] append_take_drop_id)
  ultimately show ?thesis by simp
qed

text \<open>
  C5. For a number \<open>N\<close> that is not negative, the top-N selection of a table has at
  most \<open>N\<close> rows of any period, and for each row it selects, fewer than \<open>N\<close> rows of
  the table have the same period and a strictly greater \<open>totalUSD\<close>.
\<close>

theorem top_n_rank:
  assumes "0 \<le> n"
  shows "length (filter (\<lambda>a. period a = p) (top_n_per_period tab n)) \<le> nat n
         \<and> (\<forall>t \<in> set (top_n_per_period tab n).
               int (length (filter (\<lambda>b. period b = period t
                                       \<and> fgt (totalUSD b) (totalUSD t)) tab)) < n)"
proof (intro conjI ballI)
  show "length (filter (\<lambda>a. period a = p) (top_n_per_period tab n)) \<le> nat n"
    using head_from_count [OF assms, of period p "[]" "sort_values tab"]
    by (simp add: top_n_per_period_def groupby_head_def)
next
  fix t assume "t \<in> set (top_n_per_period tab n)"
  let ?f = "\<lambda>a. (period a, desc_key (totalUSD a))"
  let ?s = "sort_values tab"
  let ?P = "\<lambda>b. period b = period t \<and> fgt (totalUSD b) (totalUSD t)"
  from \<open>t \<in> set (top_n_per_period tab n)\<close> have "t \<in> set (head_from period n [] ?s)"
    by (simp add: top_n_per_period_def groupby_head_def)
  from head_from_position [OF assms this] obtain i where i: "i < length ?s" "?s ! i = t"
    and few: "int (length (filter (\<lambda>y. period y = period t) (take i ?s))) < n"
    by auto
  have sorted: "sorted (map ?f ?s)" by (simp add: sort_values_def)
  have below: "?f b < ?f (?s ! i)" if "?P b" for b
    using that i(2) fgt_desc_key [of "totalUSD b" "totalUSD t"] by simp
  have "filter ?P ?s = filter ?P (take i ?s)"
    using sorted i(1) below by (rule sorted_smaller_before)
  moreover have "length (filter ?P tab) = length (filter ?P ?s)"
    by (simp add: sort_values_def filter_length_sort)
  moreover have "length (filter ?P (take i ?s))
      \<le> length (filter (\<lambda>y. period y = period t) (take i ?s))"
    by (rule filter_length_mono) simp
  ultimately show "int (length (filter ?P tab)) < n" using few by simp
qed

lemma sample_top_2:
  "top_n_per_period [sample_agg 1 ''A'' 100, sample_agg 2 ''B'' 300, sample_agg 3 ''C'' 200] 2
   = [sample_agg 2 ''B'' 300, sample_agg 3 ''C'' 200]"
  by (simp add: top_n_per_period_def groupby_head_def sort_values_def sample_agg_def)

theorem top_n_rank_witness:
  "top_n_per_period [sample_agg 1 ''A'' 100, sample_agg 2 ''B'' 300, sample_agg 3 ''C'' 200] 2
     = [sample_agg 2 ''B'' 300, sample_agg 3 ''C'' 200]
   \<and> length (filter (\<lambda>a. period a = 2023)
        (top_n_per_period
           [sample_agg 1 ''A'' 100, sample_agg 2 ''B'' 300, sample_agg 3 ''C'' 200] 2)) \<le> 2
   \<and> length (filter (\<lambda>b. period b = 2023 \<and> fgt (totalUSD b) (Fin 200))
        [sample_agg 1 ''A'' 100, sample_agg 2 ''B'' 300, sample_agg 3 ''C'' 200]) < 2"
  using top_n_rank [of 2 2023
      "[sample_agg 1 ''A'' 100, sample_agg 2 ''B'' 300, sample_agg 3 ''C'' 200]"]
  by (simp add: sample_top_2) (simp add: sample_agg_def)

section \<open>Shares: properties\<close>

lemma map_of_tabulate:
  "map_of (map (\<lambda>k. (k, f k)) ks) p = (if p \<in> set ks then Some (f p) else None)"
  by (induction ks) auto

lemma period_totals_lookup:
  "a \<in> set tab \<Longrightarrow>
   map_of (period_totals tab) (period a) = Some (period_total_usd tab (period a))"
  by (simp add: period_totals_def period_total_usd_def map_of_tabulate)

lemma add_shares_entry:
  assumes "t \<in> set (add_shares tab tops)"
  shows "\<exists>a \<in> set tops. totalUSD t = totalUSD a \<and> period t = period a
           \<and> shares t = share_of (totalUSD a)
                (case map_of (period_totals tab) (period a) of Some v \<Rightarrow> v | None \<Rightarrow> NaN)"
  using assms by (auto simp: add_shares_def)

lemma top_entry_share:
  assumes "t \<in> set (add_shares tab (top_n_per_period tab n))"
  shows "shares t = share_of (totalUSD t) (period_total_usd tab (period t))"
    and "\<exists>a \<in> set tab. totalUSD a = totalUSD t \<and> period a = period t"
proof -
  from add_shares_entry [OF assms] obtain a where a: "a \<in> set (top_n_per_period tab n)"
    and eq: "totalUSD t = totalUSD a" "period t = period a"
    and sh: "shares t = share_of (totalUSD a)
        (case map_of (period_totals tab) (period a) of Some v \<Rightarrow> v | None \<Rightarrow> NaN)"
    by blast
  from a top_n_subset have mem: "a \<in> set tab" by blast
  with sh eq show "shares t = share_of (totalUSD t) (period_total_usd tab (period t))"
    by (simp add: period_totals_lookup)
  from mem eq show "\<exists>a \<in> set tab. totalUSD a = totalUSD t \<and> period a = period t"
    by auto
qed

lemma share_of_finite:
  "c \<noteq> 0 \<Longrightarrow> share_of (Fin x) (Fin c) = round2 (Fin (100 * x / c))"
  by (simp add: share_of_def fillna_def)

lemma share_of_zero: "share_of (Fin 0) (Fin 0) = Fin 0"
  by (simp add: share_of_def fillna_def rint_def)

lemma period_total_zero:
  assumes nonneg: "\<forall>a \<in> set tab. \<exists>x \<ge> 0. totalUSD a = Fin x"
    and zero: "period_total_usd tab p = Fin 0"
    and mem: "a \<in> set tab" "period a = p"
  shows "totalUSD a = Fin 0"
proof -
  let ?xs = "map totalUSD (filter (\<lambda>a. period a = p) tab)"
  have fin: "\<forall>x \<in> set ?xs. is_fin x" using nonneg by auto
  have pos: "0 \<le> v" if "v \<in> set (map fin_val ?xs)" for v
    using that nonneg by auto
  from zero have "sum_list (map fin_val ?xs) = 0"
    by (simp add: period_total_usd_def pd_sum_fin [OF fin])
  with pos have "\<forall>v \<in> set (map fin_val ?xs). v = 0"
    by (simp only: sum_list_nonneg_eq_0_iff)
  moreover have "fin_val (totalUSD a) \<in> set (map fin_val ?xs)" using mem by auto
  ultimately have "fin_val (totalUSD a) = 0" by blast
  moreover from nonneg mem obtain x where "totalUSD a = Fin x" by blast
  ultimately show ?thesis by simp
qed

text \<open>
  What holds of the shares in the exact arithmetic of the model (the program divides
  and multiplies doubles, and its last digit can differ). For every entry \<open>t\<close> of a
  top-N table with its shares,
  with \<open>periodTotalUSD\<close> the sum of \<open>totalUSD\<close> over all rows of the whole table that
  have the period of \<open>t\<close>: if the total of \<open>t\<close> and the period total are finite and
  the period total is not zero, the share is \<open>100 * totalUSD / periodTotalUSD\<close> rounded
  to two decimals (a multiple of 0.01 at most 0.005 away); and if no total of the table
  is negative and the period total is zero, the share is 0.0.
\<close>

lemma shares_of_top_entries:
  assumes "t \<in> set (add_shares tab (top_n_per_period tab n))"
  shows "(\<forall>x c. totalUSD t = Fin x \<and> period_total_usd tab (period t) = Fin c \<and> c \<noteq> 0 \<longrightarrow>
            shares t = round2 (Fin (100 * x / c))
            \<and> (\<exists>k :: int. shares t = Fin (of_int k / 100)
                  \<and> \<bar>of_int k / 100 - 100 * x / c\<bar> \<le> 1 / 200))
         \<and> ((\<forall>a \<in> set tab. \<exists>x \<ge> 0. totalUSD a = Fin x)
              \<and> period_total_usd tab (period t) = Fin 0 \<longrightarrow> shares t = Fin 0)"
proof (intro conjI allI impI)
  fix x c
  assume h: "totalUSD t = Fin x \<and> period_total_usd tab (period t) = Fin c \<and> c \<noteq> 0"
  with top_entry_share(1) [OF assms]
  show sh: "shares t = round2 (Fin (100 * x / c))" by (simp add: share_of_finite)
  have "\<bar>of_int (rint (100 * x / c * 100)) / 100 - 100 * x / c\<bar> \<le> 1 / 200"
    using rint_close [of "100 * x / c * 100"] by (simp add: field_simps)
  with sh show "\<exists>k :: int. shares t = Fin (of_int k / 100)
      \<and> \<bar>of_int k / 100 - 100 * x / c\<bar> \<le> 1 / 200"
    by auto
next
  assume h: "(\<forall>a \<in> set tab. \<exists>x \<ge> 0. totalUSD a = Fin x)
    \<and> period_total_usd tab (period t) = Fin 0"
  from top_entry_share(2) [OF assms] obtain a where "a \<in> set tab"
    and "totalUSD a = totalUSD t" and "period a = period t" by blast
  with h period_total_zero [of tab "period t" a] have "totalUSD t = Fin 0" by simp
  with h top_entry_share(1) [OF assms] show "shares t = Fin 0"
    by (simp add: share_of_zero)
qed

lemma sample_top_1:
  "add_shares [sample_agg 1 ''A'' 100, sample_agg 2 ''B'' 300]
     (top_n_per_period [sample_agg 1 ''A'' 100, sample_agg 2 ''B'' 300] 1)
   = [sample_top 2 ''B'' 300 (Fin 75)]"
  by (simp add: add_shares_def top_n_per_period_def groupby_head_def sort_values_def
      sample_agg_def sample_top_def period_totals_def pd_sum_def share_of_def fillna_def
      rint_def)

lemma sample_top_zero:
  "add_shares [sample_agg 1 ''A'' 0, sample_agg 2 ''B'' 0]
     (top_n_per_period [sample_agg 1 ''A'' 0, sample_agg 2 ''B'' 0] 1)
   = [sample_top 1 ''A'' 0 (Fin 0)]"
  by (simp add: add_shares_def top_n_per_period_def groupby_head_def sort_values_def
      sample_agg_def sample_top_def period_totals_def pd_sum_def share_of_def fillna_def
      rint_def)

lemma shares_of_top_entries_sample:
  "add_shares [sample_agg 1 ''A'' 100, sample_agg 2 ''B'' 300]
     (top_n_per_period [sample_agg 1 ''A'' 100, sample_agg 2 ''B'' 300] 1)
   = [sample_top 2 ''B'' 300 (Fin 75)]
   \<and> period_total_usd [sample_agg 1 ''A'' 100, sample_agg 2 ''B'' 300] 2023 = Fin 400
   \<and> shares (sample_top 2 ''B'' 300 (Fin 75)) = round2 (Fin (100 * 300 / 400))
   \<and> add_shares [sample_agg 1 ''A'' 0, sample_agg 2 ''B'' 0]
       (top_n_per_period [sample_agg 1 ''A'' 0, sample_agg 2 ''B'' 0] 1)
     = [sample_top 1 ''A'' 0 (Fin 0)]
   \<and> period_total_usd [sample_agg 1 ''A'' 0, sample_agg 2 ''B'' 0] 2023 = Fin 0
   \<and> shares (sample_top 1 ''A'' 0 (Fin 0)) = Fin 0"
proof -
  let ?tab = "[sample_agg 1 ''A'' 100, sample_agg 2 ''B'' 300]"
  let ?zero = "[sample_agg 1 ''A'' 0, sample_agg 2 ''B'' 0]"
  have mem: "sample_top 2 ''B'' 300 (Fin 75) \<in> set (add_shares ?tab (top_n_per_period ?tab 1))"
    by (simp add: sample_top_1)
  have tot: "period_total_usd ?tab 2023 = Fin 400"
    by (simp add: period_total_usd_def pd_sum_def sample_agg_def)
  have "period (sample_top 2 ''B'' 300 (Fin 75)) = 2023"
    and "totalUSD (sample_top 2 ''B'' 300 (Fin 75)) = Fin 300"
    by (simp_all add: sample_top_def)
  with shares_of_top_entries [OF mem] tot
  have one: "shares (sample_top 2 ''B'' 300 (Fin 75)) = round2 (Fin (100 * 300 / 400))"
    by simp
  have mem0: "sample_top 1 ''A'' 0 (Fin 0) \<in> set (add_shares ?zero (top_n_per_period ?zero 1))"
    by (simp add: sample_top_zero)
  have tot0: "period_total_usd ?zero 2023 = Fin 0"
    by (simp add: period_total_usd_def pd_sum_def sample_agg_def)
  have "period (sample_top 1 ''A'' 0 (Fin 0)) = 2023"
    and "\<forall>a \<in> set ?zero. \<exists>x \<ge> 0. totalUSD a = Fin x"
    by (simp_all add: sample_top_def sample_agg_def)
  with shares_of_top_entries [OF mem0] tot0
  have two: "shares (sample_top 1 ''A'' 0 (Fin 0)) = Fin 0"
    by simp
  from one two tot tot0 show ?thesis by (simp add: sample_top_1 sample_top_zero)
qed

text \<open>
  C3. The claim is that the share of every top-N entry is
  \<open>100 * totalUSD / periodTotalUSD\<close> rounded to two decimals, and 0.0 whenever the
  period total is 0. The code guards the division with \<open>fillna(0.0)\<close>, which replaces
  the NaN of \<open>0 / 0\<close> and nothing else. In a table with two rows of one period whose
  totals are 5 and -5, the period total is 0 and the shares the code computes are the
  two infinities.
\<close>

theorem shares_infinite_at_zero_total:
  "period_total_usd [sample_agg 1 ''A'' 5, sample_agg 2 ''B'' (- 5)] 2023 = Fin 0
   \<and> map shares (add_shares [sample_agg 1 ''A'' 5, sample_agg 2 ''B'' (- 5)]
          (top_n_per_period [sample_agg 1 ''A'' 5, sample_agg 2 ''B'' (- 5)] 5))
       = [PInf, NInf]"
  by (simp add: add_shares_def top_n_per_period_def groupby_head_def sort_values_def
      sample_agg_def period_totals_def period_total_usd_def pd_sum_def share_of_def
      fillna_def)

section \<open>The program: properties\<close>

lemma sample_overview:
  "fetch_bridges_overview sample_catalog =
     Inr (JArr [JObj [(''id'', JInt 2), (''displayName'', JStr ''B'')]])"
  by (simp add: fetch_bridges_overview_def http_first_attempt sample_catalog_def)

lemma sample_ids:
  "load_ids [JObj [(''id'', JInt 2), (''displayName'', JStr ''B'')]] [] Map.empty =
     Inr ([2], [2 \<mapsto> ''B''])"
  by (simp add: py_get_def py_int_def display_name_def name_field_def)

lemma sample_no_rows:
  "collect_daily_rows sample_server [2] names d =
     ([], [(2, UnexpectedFormat BRIDGE_VOLUME_URL (JObj [(''error'', JStr ''no such bridge'')]))])"
  by (simp add: collect_daily_rows_def bridge_rows_def fetch_bridge_daily_all_def
      http_first_attempt sample_server_def)

lemma sample_iterate:
  "iterate (JArr [JObj [(''id'', JInt 2), (''displayName'', JStr ''B'')]]) =
     Inr [JObj [(''id'', JInt 2), (''displayName'', JStr ''B'')]]"
  by (simp add: iterate_def)

lemma sample_zero:
  "fst (collect_daily_rows sample_server
         (if 0 < max_bridges sample_args then take (nat (max_bridges sample_args)) [2]
          else [2])
         [2 \<mapsto> ''B''] (delay_ms sample_args)) = []"
  by (simp add: sample_args_def sample_no_rows)

lemma down_overview:
  "fetch_bridges_overview down =
     Inl (GetFailed BRIDGES_URL None (Some (TransportError ''timeout'')))"
proof -
  have "\<exists>e. down (nat 5) = Inl e \<and>
      http_loop down BRIDGES_URL None 5 1 (4 / 10) None =
        \<lparr>result = Inl (GetFailed BRIDGES_URL None (Some e)), attempts = Suc 4,
         sleeps = backoff (4 / 10) 4\<rparr>"
    by (rule http_loop_exhausted) (simp_all add: down_def)
  then show ?thesis
    by (auto simp: fetch_bridges_overview_def http_get_json_def down_def)
qed

lemma empty_overview: "fetch_bridges_overview empty_catalog = Inr (JArr [])"
  by (simp add: fetch_bridges_overview_def http_first_attempt empty_catalog_def)

text \<open>
  C2. When the catalog loads and is not empty but the collector returns no row, the
  run ends with \<open>sys.exit(1)\<close>, and it has written one file before:
  \<open>all_bridges_daily.csv\<close>, with no row. None of the four aggregate files is written.
  The two ways the catalog can fail both end the run before anything is written: a
  catalog that loads empty ends it with \<open>sys.exit(2)\<close>, and a catalog request that
  raises is caught nowhere, so the process ends on the exception, with exit status 1
  like the run without rows.
\<close>

theorem zero_rows_exit:
  "(fetch_bridges_overview catalog = Inr overview \<and> truthy overview
      \<and> iterate overview = Inr bs \<and> load_ids bs [] Map.empty = Inr (ids0, names)
      \<and> fst (collect_daily_rows srv
                (if 0 < max_bridges a then take (nat (max_bridges a)) ids0 else ids0)
                names (delay_ms a)) = []
    \<longrightarrow> status (main to_datetime catalog srv a) = Exited 1
        \<and> exit_status (status (main to_datetime catalog srv a)) = 1
        \<and> written (main to_datetime catalog srv a) = [(daily_csv, Daily [])])
   \<and> (fetch_bridges_overview catalog = Inr overview \<and> \<not> truthy overview
    \<longrightarrow> status (main to_datetime catalog srv a) = Exited 2
        \<and> exit_status (status (main to_datetime catalog srv a)) = 2
        \<and> written (main to_datetime catalog srv a) = [])
   \<and> (fetch_bridges_overview catalog = Inl e
    \<longrightarrow> status (main to_datetime catalog srv a) = Uncaught e
        \<and> exit_status (status (main to_datetime catalog srv a)) = 1
        \<and> written (main to_datetime catalog srv a) = [])"
  by (simp add: main_def exit_status_def Let_def)

theorem zero_rows_exit_witness:
  "status (main iso_date sample_catalog sample_server sample_args) = Exited 1
   \<and> written (main iso_date sample_catalog sample_server sample_args) =
       [(''all_bridges_daily.csv'', Daily [])]
   \<and> status (main iso_date empty_catalog sample_server sample_args) = Exited 2
   \<and> written (main iso_date empty_catalog sample_server sample_args) = []
   \<and> status (main iso_date down sample_server sample_args) =
       Uncaught (GetFailed BRIDGES_URL None (Some (TransportError ''timeout'')))
   \<and> exit_status (status (main iso_date down sample_server sample_args)) = 1
   \<and> written (main iso_date down sample_server sample_args) = []"
proof -
  have rows: "fetch_bridges_overview sample_catalog =
        Inr (JArr [JObj [(''id'', JInt 2), (''displayName'', JStr ''B'')]])
      \<and> truthy (JArr [JObj [(''id'', JInt 2), (''displayName'', JStr ''B'')]])
      \<and> iterate (JArr [JObj [(''id'', JInt 2), (''displayName'', JStr ''B'')]]) =
          Inr [JObj [(''id'', JInt 2), (''displayName'', JStr ''B'')]]
      \<and> load_ids [JObj [(''id'', JInt 2), (''displayName'', JStr ''B'')]] [] Map.empty =
          Inr ([2], [2 \<mapsto> ''B''])
      \<and> fst (collect_daily_rows sample_server
               (if 0 < max_bridges sample_args then take (nat (max_bridges sample_args)) [2]
                else [2])
               [2 \<mapsto> ''B''] (delay_ms sample_args)) = []"
    using sample_overview sample_iterate sample_ids sample_zero by (simp add: truthy_def)
  have none: "fetch_bridges_overview empty_catalog = Inr (JArr []) \<and> \<not> truthy (JArr [])"
    using empty_overview by (simp add: truthy_def)
  from zero_rows_exit [of sample_catalog _ _ "[2]" "[2 \<mapsto> ''B'']" sample_server
      sample_args iso_date] rows
  have one: "status (main iso_date sample_catalog sample_server sample_args) = Exited 1
      \<and> written (main iso_date sample_catalog sample_server sample_args) =
          [(daily_csv, Daily [])]"
    by blast
  from zero_rows_exit [of empty_catalog "JArr []" _ _ _ sample_server sample_args iso_date]
    none
  have two: "status (main iso_date empty_catalog sample_server sample_args) = Exited 2
      \<and> written (main iso_date empty_catalog sample_server sample_args) = []"
    by blast
  from zero_rows_exit [of down _ _ _ _ sample_server sample_args iso_date
      "GetFailed BRIDGES_URL None (Some (TransportError ''timeout''))"] down_overview
  have three: "status (main iso_date down sample_server sample_args) =
        Uncaught (GetFailed BRIDGES_URL None (Some (TransportError ''timeout'')))
      \<and> exit_status (status (main iso_date down sample_server sample_args)) = 1
      \<and> written (main iso_date down sample_server sample_args) = []"
    by blast
  from one two three show ?thesis by (simp add: daily_csv_def exit_status_def)
qed

text \<open>
  The run without rows has written a file when it exits, so it does not end before any
  output is written; and its exit status is that of the run whose catalog request
  raises, so the status does not tell the two apart.
\<close>

theorem zero_rows_file_written:
  "fst (collect_daily_rows sample_server [2] [2 \<mapsto> ''B''] 200) = []
   \<and> written (main iso_date sample_catalog sample_server sample_args) \<noteq> []
   \<and> exit_status (status (main iso_date sample_catalog sample_server sample_args)) = 1
   \<and> written (main iso_date down sample_server sample_args) = []
   \<and> exit_status (status (main iso_date down sample_server sample_args)) = 1"
  by (simp add: main_def exit_status_def sample_overview down_overview sample_ids
      sample_no_rows iterate_def truthy_def sample_args_def Let_def del: load_ids.simps)

end
